theory Spec2Isabelle
  imports Main
begin

section \<open>Protocol constants (constants.js)\<close>

definition GENESIS_HASH :: string where
  "GENESIS_HASH = ''GENESIS''"

definition PROTOCOL_VERSION :: int where
  "PROTOCOL_VERSION = 2"

definition DAILY_CAP :: int where
  "DAILY_CAP = 3600"

definition MONTHLY_CAP :: int where
  "MONTHLY_CAP = 36000"

definition YEARLY_CAP :: int where
  "YEARLY_CAP = 120000"

definition MIN_BLOCK_INTERVAL_MS :: int where
  "MIN_BLOCK_INTERVAL_MS = 1000"

definition UTC_TOLERANCE_MS :: int where
  "UTC_TOLERANCE_MS = 720000"

section \<open>JavaScript values\<close>

text \<open>
  Payloads, JWKs and analysis results are plain JavaScript data. \<open>JObj\<close> lists the own
  enumerable properties of an object in enumeration order; an object has no key twice.
  Numbers are modelled as integers: the timestamps, counters, sequence numbers and scores
  the chain engine computes with are integers below \<open>2\<^sup>5\<^sup>3\<close>, where JavaScript's
  doubles are exact.
\<close>

datatype json =
    JUndef
  | JNull
  | JBool bool
  | JNum int
  | JStr string
  | JArr "json list"
  | JObj "(string \<times> json) list"

text \<open>ToBoolean, as used by \<^verbatim>\<open>||\<close>, \<^verbatim>\<open>&&\<close>, \<^verbatim>\<open>!\<close> and \<^verbatim>\<open>if\<close>.\<close>

fun truthy :: "json \<Rightarrow> bool" where
  "truthy JUndef = False"
| "truthy JNull = False"
| "truthy (JBool b) = b"
| "truthy (JNum n) = (n \<noteq> 0)"
| "truthy (JStr s) = (s \<noteq> [])"
| "truthy (JArr xs) = True"
| "truthy (JObj kvs) = True"

text \<open>\<^verbatim>\<open>a || b\<close> on values.\<close>

definition js_or :: "json \<Rightarrow> json \<Rightarrow> json" where
  "js_or a b = (if truthy a then a else b)"

text \<open>\<^verbatim>\<open>typeof x === 'object'\<close>: true of \<^verbatim>\<open>null\<close>, arrays and objects.\<close>

fun typeof_object :: "json \<Rightarrow> bool" where
  "typeof_object JNull = True"
| "typeof_object (JArr xs) = True"
| "typeof_object (JObj kvs) = True"
| "typeof_object _ = False"

text \<open>
  \<^verbatim>\<open>x?.name\<close> for the data property names the engine reads (chatId, text, scores,
  livenessProof, timestamp, ...): the property's value on an object that has it,
  \<^verbatim>\<open>undefined\<close> otherwise.
\<close>

fun get_prop :: "json \<Rightarrow> string \<Rightarrow> json" where
  "get_prop (JObj kvs) k = (case map_of kvs k of Some x \<Rightarrow> x | None \<Rightarrow> JUndef)"
| "get_prop _ k = JUndef"

subsection \<open>Number and string conversion\<close>

text \<open>
  The decimal digits of an integer, as ToString and \<^verbatim>\<open>JSON.stringify\<close> print a number
  below \<open>10\<^sup>2\<^sup>1\<close>.
\<close>

definition digit_char :: "int \<Rightarrow> char" where
  "digit_char d = ''0123456789abcdef'' ! nat (d mod 16)"

function show_digits :: "int \<Rightarrow> string" where
  "show_digits n =
     (if n < 10 then [digit_char n] else show_digits (n div 10) @ [digit_char (n mod 10)])"
  by pat_completeness auto
termination
  by (relation "measure nat") auto

declare show_digits.simps [simp del]

definition show_int :: "int \<Rightarrow> string" where
  "show_int i = (if i < 0 then CHR ''-'' # show_digits (- i) else show_digits i)"

fun join :: "string \<Rightarrow> string list \<Rightarrow> string" where
  "join sep [] = []"
| "join sep [x] = x"
| "join sep (x # y # ys) = x @ sep @ join sep (y # ys)"

text \<open>ToString, as \<^verbatim>\<open>Array.prototype.join\<close> applies it to the elements of an array.\<close>

fun js_toString :: "json \<Rightarrow> string" where
  "js_toString JUndef = ''undefined''"
| "js_toString JNull = ''null''"
| "js_toString (JBool b) = (if b then ''true'' else ''false'')"
| "js_toString (JNum n) = show_int n"
| "js_toString (JStr s) = s"
| "js_toString (JArr xs) =
     join '','' (map (\<lambda>x. if x = JUndef \<or> x = JNull then [] else js_toString x) xs)"
| "js_toString (JObj kvs) = ''[object Object]''"

definition array_join :: "string \<Rightarrow> json list \<Rightarrow> string" where
  "array_join sep xs =
     join sep (map (\<lambda>x. if x = JUndef \<or> x = JNull then [] else js_toString x) xs)"

subsection \<open>ToNumber\<close>

text \<open>
  The white space of a numeric string and of \<^verbatim>\<open>parseInt\<close> among the 8-bit characters
  (TAB, LF, VT, FF, CR, SP, NBSP), and the decimal digits.
\<close>

definition is_space :: "char \<Rightarrow> bool" where
  "is_space c = List.member [9, 10, 11, 12, 13, 32, 160 :: nat] (of_char c)"

definition is_digit :: "char \<Rightarrow> bool" where
  "is_digit c = (48 \<le> (of_char c :: nat) \<and> (of_char c :: nat) \<le> 57)"

definition digits_val :: "string \<Rightarrow> int" where
  "digits_val ds = foldl (\<lambda>a c. 10 * a + (int (of_char c) - 48)) 0 ds"

text \<open>
  The result of ToNumber: NaN, an infinity, or a finite number. A numeric string may spell
  a fraction, so a finite number is kept as \<open>Finite m e\<close>, which stands for
  \<open>m \<times> 10\<^sup>e\<close>; an integer \<open>n\<close> is \<open>Finite n 0\<close>. The number is the exact one the
  string spells: the rounding to the nearest double is not modelled.
\<close>

datatype jsnumber = NaN | NegInfinity | PosInfinity | Finite int int

fun negate :: "jsnumber \<Rightarrow> jsnumber" where
  "negate NaN = NaN"
| "negate NegInfinity = PosInfinity"
| "negate PosInfinity = NegInfinity"
| "negate (Finite m e) = Finite (- m) e"

text \<open>The value of a digit in a radix up to 16; 99 for a character that is no digit.\<close>

definition digit_of :: "char \<Rightarrow> int" where
  "digit_of c =
     (let n = (of_char c :: nat) in
      if 48 \<le> n \<and> n \<le> 57 then int n - 48
      else if 97 \<le> n \<and> n \<le> 102 then int n - 87
      else if 65 \<le> n \<and> n \<le> 70 then int n - 55
      else 99)"

text \<open>The digits after the prefix \<^verbatim>\<open>0x\<close>, \<^verbatim>\<open>0o\<close> or \<^verbatim>\<open>0b\<close>: at least one, all of the radix.\<close>

definition radix_literal :: "int \<Rightarrow> string \<Rightarrow> jsnumber" where
  "radix_literal r ds =
     (if ds \<noteq> [] \<and> list_all (\<lambda>c. digit_of c < r) ds
      then Finite (foldl (\<lambda>a c. r * a + digit_of c) 0 ds) 0
      else NaN)"

text \<open>
  What follows the mantissa of a decimal literal: nothing, or \<^verbatim>\<open>e\<close> or \<^verbatim>\<open>E\<close>, an
  optional sign and at least one digit. \<open>None\<close> when it is anything else.
\<close>

definition exponent_part :: "string \<Rightarrow> int option" where
  "exponent_part s =
     (if s = [] then Some 0
      else if hd s = CHR ''e'' \<or> hd s = CHR ''E'' then
        (let t = tl s;
             neg = (t \<noteq> [] \<and> hd t = CHR ''-'');
             u = (if t \<noteq> [] \<and> (hd t = CHR ''-'' \<or> hd t = CHR ''+'') then tl t else t)
         in if u \<noteq> [] \<and> list_all is_digit u
            then Some (if neg then - digits_val u else digits_val u)
            else None)
      else None)"

text \<open>
  StrUnsignedDecimalLiteral: \<^verbatim>\<open>Infinity\<close>, or digits with an optional fraction and an
  optional exponent, with a digit before or after the point.
\<close>

definition unsigned_decimal :: "string \<Rightarrow> jsnumber" where
  "unsigned_decimal s =
     (if s = ''Infinity'' then PosInfinity
      else
        (let ip = takeWhile is_digit s;
             r1 = dropWhile is_digit s;
             dot = (r1 \<noteq> [] \<and> hd r1 = CHR ''.'');
             fp = (if dot then takeWhile is_digit (tl r1) else []);
             r2 = (if dot then dropWhile is_digit (tl r1) else r1)
         in if ip = [] \<and> fp = [] then NaN
            else (case exponent_part r2 of
                    None \<Rightarrow> NaN
                  | Some ex \<Rightarrow> Finite (digits_val (ip @ fp)) (ex - int (length fp)))))"

text \<open>
  StringToNumber: white space is trimmed at both ends; the empty string is 0; a decimal
  literal may carry a sign, a hexadecimal, octal or binary one may not.
\<close>

definition StringToNumber :: "string \<Rightarrow> jsnumber" where
  "StringToNumber s =
     (let t = rev (dropWhile is_space (rev (dropWhile is_space s))) in
      if t = [] then Finite 0 0
      else if hd t = CHR ''-'' then negate (unsigned_decimal (tl t))
      else if hd t = CHR ''+'' then unsigned_decimal (tl t)
      else if take 2 t = ''0x'' \<or> take 2 t = ''0X'' then radix_literal 16 (drop 2 t)
      else if take 2 t = ''0o'' \<or> take 2 t = ''0O'' then radix_literal 8 (drop 2 t)
      else if take 2 t = ''0b'' \<or> take 2 t = ''0B'' then radix_literal 2 (drop 2 t)
      else unsigned_decimal t)"

text \<open>
  ToNumber of a value. An array or a plain object is first converted to a string
  (\<^verbatim>\<open>[5]\<close> to \<^verbatim>\<open>"5"\<close>, an object to \<^verbatim>\<open>"[object Object]"\<close>).
\<close>

fun to_number :: "json \<Rightarrow> jsnumber" where
  "to_number JUndef = NaN"
| "to_number JNull = Finite 0 0"
| "to_number (JBool b) = Finite (if b then 1 else 0) 0"
| "to_number (JNum n) = Finite n 0"
| "to_number (JStr s) = StringToNumber s"
| "to_number (JArr xs) = StringToNumber (js_toString (JArr xs))"
| "to_number (JObj kvs) = StringToNumber (js_toString (JObj kvs))"

text \<open>
  \<^verbatim>\<open>a - x > b\<close> for integers \<open>a\<close>, \<open>b\<close> and a number \<open>x\<close>: false when \<open>x\<close> is NaN
  (the difference is NaN) or \<open>+\<infinity>\<close>, true when \<open>x\<close> is \<open>-\<infinity>\<close>.
\<close>

definition difference_exceeds :: "int \<Rightarrow> jsnumber \<Rightarrow> int \<Rightarrow> bool" where
  "difference_exceeds a x b =
     (case x of
        NaN \<Rightarrow> False
      | PosInfinity \<Rightarrow> False
      | NegInfinity \<Rightarrow> True
      | Finite m e \<Rightarrow>
          if 0 \<le> e then a - m * 10 ^ nat e > b
          else (a - b) * 10 ^ nat (- e) > m)"

section \<open>Codec (crypto.js)\<close>

subsection \<open>JSON.stringify\<close>

text \<open>
  QuoteJSONString on 8-bit characters: the quote and the backslash are escaped, the
  control characters below 0x20 get their short escape or \<^verbatim>\<open>\u00XX\<close>.
\<close>

definition json_escape_char :: "char \<Rightarrow> string" where
  "json_escape_char c =
     (if c = CHR 0x22 then [CHR 0x5C, CHR 0x22]
      else if c = CHR 0x5C then [CHR 0x5C, CHR 0x5C]
      else if c = CHR 0x08 then [CHR 0x5C, CHR ''b'']
      else if c = CHR 0x0C then [CHR 0x5C, CHR ''f'']
      else if c = CHR 0x0A then [CHR 0x5C, CHR ''n'']
      else if c = CHR 0x0D then [CHR 0x5C, CHR ''r'']
      else if c = CHR 0x09 then [CHR 0x5C, CHR ''t'']
      else if (of_char c :: nat) < 32 then
        [CHR 0x5C, CHR ''u'', CHR ''0'', CHR ''0'',
         digit_char (of_char c div 16), digit_char (of_char c mod 16)]
      else [c])"

definition json_quote :: "string \<Rightarrow> string" where
  "json_quote s = CHR 0x22 # concat (map json_escape_char s) @ [CHR 0x22]"

text \<open>
  \<^verbatim>\<open>JSON.stringify(x)\<close>; \<open>None\<close> is the result \<^verbatim>\<open>undefined\<close>. A property whose value
  is \<^verbatim>\<open>undefined\<close> is left out of an object and written \<^verbatim>\<open>null\<close> in an array. A
  number is an integer of the model, printed in decimal; JavaScript prints it so when its
  absolute value is below \<open>10\<^sup>2\<^sup>1\<close>, and in exponent form from there on, which is not
  modelled here or in \<open>canonicalize\<close>.
\<close>

fun JSON_stringify :: "json \<Rightarrow> string option" where
  "JSON_stringify JUndef = None"
| "JSON_stringify JNull = Some ''null''"
| "JSON_stringify (JBool b) = Some (if b then ''true'' else ''false'')"
| "JSON_stringify (JNum n) = Some (show_int n)"
| "JSON_stringify (JStr s) = Some (json_quote s)"
| "JSON_stringify (JArr xs) =
     Some (''['' @ join '','' (map (\<lambda>x. case JSON_stringify x of None \<Rightarrow> ''null'' | Some t \<Rightarrow> t) xs)
           @ '']'')"
| "JSON_stringify (JObj kvs) =
     Some (''{'' @ join '',''
             (concat (map (\<lambda>kv. case JSON_stringify (snd kv) of
                                   None \<Rightarrow> []
                                 | Some t \<Rightarrow> [json_quote (fst kv) @ '':'' @ t]) kvs))
           @ ''}'')"

subsection \<open>canonicalize\<close>

text \<open>
  \<^verbatim>\<open>Object.keys(obj).sort()\<close> orders the keys by their code units. The keys of an
  object are distinct, so sorting the key-value pairs by key and mapping over them is
  the source's \<^verbatim>\<open>keys.map(k => ... obj[k])\<close>.
\<close>

fun str_less :: "string \<Rightarrow> string \<Rightarrow> bool" where
  "str_less [] [] = False"
| "str_less [] (y # ys) = True"
| "str_less (x # xs) [] = False"
| "str_less (x # xs) (y # ys) =
     ((of_char x :: nat) < of_char y \<or> (x = y \<and> str_less xs ys))"

fun insert_by_key :: "string \<times> 'a \<Rightarrow> (string \<times> 'a) list \<Rightarrow> (string \<times> 'a) list" where
  "insert_by_key p [] = [p]"
| "insert_by_key p (q # qs) =
     (if str_less (fst p) (fst q) then p # q # qs else q # insert_by_key p qs)"

definition sort_by_key :: "(string \<times> 'a) list \<Rightarrow> (string \<times> 'a) list" where
  "sort_by_key kvs = foldl (\<lambda>acc p. insert_by_key p acc) [] kvs"

fun canonicalize :: "json \<Rightarrow> string" where
  "canonicalize JNull = ''null''"
| "canonicalize JUndef = ''undefined''"
| "canonicalize (JBool b) = (if b then ''true'' else ''false'')"
| "canonicalize (JNum n) = show_int n"
| "canonicalize (JStr s) = json_quote s"
| "canonicalize (JArr xs) = ''['' @ join '','' (map canonicalize xs) @ '']''"
| "canonicalize (JObj kvs) =
     ''{'' @ join '',''
        (map (\<lambda>kv. json_quote (fst kv) @ '':'' @ snd kv)
           (sort_by_key (map (\<lambda>kv. (fst kv, canonicalize (snd kv))) kvs)))
     @ ''}''"

section \<open>Capsule content hash (tvm.js)\<close>

text \<open>
  \<^verbatim>\<open>hashCapsuleContent(messages, analysis)\<close> builds an object literal with the keys
  messageTexts, motivator, category, richScore in this order and hashes its
  \<^verbatim>\<open>JSON.stringify\<close>. \<open>messages\<close> is the content of the array. Reading
  \<^verbatim>\<open>m.text\<close> of a message that is \<^verbatim>\<open>null\<close> or \<^verbatim>\<open>undefined\<close>, or a field of such an
  analysis, throws a TypeError: this is \<open>None\<close>. \<open>capsule_content\<close> is the object,
  \<open>hashCapsuleContent_input\<close> the string handed to \<^verbatim>\<open>sha256Hex\<close>, which is a parameter.
\<close>

definition nullish :: "json \<Rightarrow> bool" where
  "nullish x = (x = JUndef \<or> x = JNull)"

definition capsule_content :: "json list \<Rightarrow> json \<Rightarrow> json option" where
  "capsule_content messages analysis =
     (if list_ex nullish messages \<or> nullish analysis then None
      else Some (JObj [(''messageTexts'',
              JStr (array_join ''|'' (map (\<lambda>m. js_or (get_prop m ''text'') (JStr [])) messages))),
           (''motivator'', get_prop analysis ''motivator''),
           (''category'', get_prop analysis ''category''),
           (''richScore'', get_prop analysis ''richScore'')]))"

definition hashCapsuleContent_input :: "json list \<Rightarrow> json \<Rightarrow> string option" where
  "hashCapsuleContent_input messages analysis =
     (case capsule_content messages analysis of
        None \<Rightarrow> None
      | Some content \<Rightarrow> JSON_stringify content)"

definition hashCapsuleContent :: "(string \<Rightarrow> string) \<Rightarrow> json list \<Rightarrow> json \<Rightarrow> string option" where
  "hashCapsuleContent sha256 messages analysis =
     (case hashCapsuleContent_input messages analysis of
        None \<Rightarrow> None
      | Some t \<Rightarrow> Some (sha256 t))"

section \<open>Cryptographic primitives (crypto.js)\<close>

text \<open>
  SHA-256, ECDSA signing and verification and the JWK import are WebCrypto calls; they are
  parameters of the model. Signing and importing a key may throw, which is \<open>None\<close>;
  \<^verbatim>\<open>verify\<close> catches every exception itself and answers \<^verbatim>\<open>false\<close>.
\<close>

datatype cryptokey = CryptoKey json

record crypto =
  sha256Hex :: "string \<Rightarrow> string"
  subtle_sign :: "cryptokey \<Rightarrow> string \<Rightarrow> string option"
  importPublicKeyJwk :: "json \<Rightarrow> cryptokey option"
  subtle_verify :: "cryptokey \<Rightarrow> string \<Rightarrow> string \<Rightarrow> bool"

section \<open>Segments (segment.js)\<close>

definition CHAT_USER :: string where "CHAT_USER = ''chat.user''"
definition AI_ADVICE :: string where "AI_ADVICE = ''ai.advice''"
definition BIZ_DECISION :: string where "BIZ_DECISION = ''biz.decision''"
definition BIZ_OUTCOME :: string where "BIZ_OUTCOME = ''biz.outcome''"
definition CHAT_APPEND :: string where "CHAT_APPEND = ''chat.append''"
definition CAPSULE_MINT :: string where "CAPSULE_MINT = ''capsule.mint''"
definition TVM_TRANSFER :: string where "TVM_TRANSFER = ''tvm.transfer''"

definition STA_TYPES :: "string list" where
  "STA_TYPES = [CHAT_USER, AI_ADVICE, BIZ_DECISION, BIZ_OUTCOME, CHAT_APPEND, CAPSULE_MINT,
                TVM_TRANSFER]"

text \<open>
  A segment with the fields of the \<^verbatim>\<open>Segment\<close> typedef. The author object is its two
  fields and the liveness proof the validator looks for on it (\<open>JUndef\<close> when it has
  none); a reference or owner that is \<^verbatim>\<open>null\<close> is \<open>None\<close>, and so is the signature
  of a segment that has not been signed.
\<close>

record segment =
  seg_v :: int
  seq :: int
  timestamp :: int
  nonce :: string
  sta_type :: string
  payload :: json
  prev_hash :: string
  unlocker_ref :: "string option"
  unlocked_ref :: "string option"
  previous_owner :: "string option"
  current_owner :: string
  author_hid :: string
  author_pubJwk :: json
  author_livenessProof :: json
  signature :: "string option"

text \<open>\<^verbatim>\<open>Date.now()\<close> and \<^verbatim>\<open>randomHex(16)\<close> are the arguments \<open>now\<close> and \<open>rnd\<close>.\<close>

definition createSegment ::
  "string \<Rightarrow> json \<Rightarrow> string \<Rightarrow> int \<Rightarrow> string \<Rightarrow> json \<Rightarrow> string option \<Rightarrow> string option \<Rightarrow>
   string option \<Rightarrow> int \<Rightarrow> string \<Rightarrow> segment" where
  "createSegment hid pubJwk prevHash sq type pl previousOwner unlockerRef unlockedRef now rnd =
     \<lparr>seg_v = PROTOCOL_VERSION, seq = sq, timestamp = now, nonce = rnd, sta_type = type,
      payload = pl, prev_hash = prevHash, unlocker_ref = unlockerRef, unlocked_ref = unlockedRef,
      previous_owner = previousOwner, current_owner = hid, author_hid = hid,
      author_pubJwk = pubJwk, author_livenessProof = JUndef, signature = None\<rparr>"

definition json_of_ref :: "string option \<Rightarrow> json" where
  "json_of_ref r = (case r of None \<Rightarrow> JNull | Some t \<Rightarrow> JStr t)"

text \<open>The segment as a JavaScript object, without its signature.\<close>

definition segment_object :: "segment \<Rightarrow> json" where
  "segment_object s =
     JObj [(''v'', JNum (seg_v s)), (''seq'', JNum (seq s)), (''timestamp'', JNum (timestamp s)),
           (''nonce'', JStr (nonce s)), (''type'', JStr (sta_type s)), (''payload'', payload s),
           (''prev_hash'', JStr (prev_hash s)), (''unlocker_ref'', json_of_ref (unlocker_ref s)),
           (''unlocked_ref'', json_of_ref (unlocked_ref s)),
           (''previous_owner'', json_of_ref (previous_owner s)),
           (''current_owner'', JStr (current_owner s)),
           (''author'',
              JObj ([(''hid'', JStr (author_hid s)), (''pubJwk'', author_pubJwk s)] @
                    (if author_livenessProof s = JUndef then []
                     else [(''livenessProof'', author_livenessProof s)])))]"

definition getSignableContent :: "segment \<Rightarrow> string" where
  "getSignableContent s = canonicalize (segment_object s)"

definition signSegment :: "crypto \<Rightarrow> segment \<Rightarrow> cryptokey \<Rightarrow> segment option" where
  "signSegment cr s privateKey =
     (case subtle_sign cr privateKey (getSignableContent s) of
        None \<Rightarrow> None
      | Some sg \<Rightarrow> Some (s\<lparr>signature := Some sg\<rparr>))"

text \<open>
  The string \<^verbatim>\<open>signable + '|' + sta.signature\<close>; a missing signature concatenates as
  \<^verbatim>\<open>undefined\<close>.
\<close>

definition block_hash_input :: "segment \<Rightarrow> string" where
  "block_hash_input s =
     getSignableContent s @ ''|'' @ (case signature s of Some sg \<Rightarrow> sg | None \<Rightarrow> ''undefined'')"

definition starts_with :: "string \<Rightarrow> string \<Rightarrow> bool" where
  "starts_with s pre = (take (length pre) s = pre)"

text \<open>
  \<^verbatim>\<open>validateSegmentStructure\<close>: \<open>None\<close> is \<^verbatim>\<open>{valid: true}\<close>, \<open>Some r\<close> carries the
  reason. The checks that a record cannot fail (a field that is always present and
  always of its type) are left out; the others are in the source's order.
\<close>

definition validateSegmentStructure :: "segment \<Rightarrow> string option" where
  "validateSegmentStructure obj =
     (if signature obj = None then Some ''Missing required field: signature''
      else if seg_v obj < 1 then Some ''Invalid version''
      else if seq obj < 1 then Some ''Invalid sequence number''
      else if timestamp obj < 0 then Some ''Invalid timestamp''
      else if length (nonce obj) \<noteq> 32 then Some ''Invalid nonce''
      else if \<not> List.member STA_TYPES (sta_type obj) then Some (''Invalid type: '' @ sta_type obj)
      else if \<not> typeof_object (payload obj) then Some ''Invalid payload''
      else if \<not> starts_with (current_owner obj) ''HID-'' then Some ''Invalid current_owner''
      else if \<not> truthy (author_pubJwk obj) then Some ''Invalid author''
      else None)"


definition isMessageType :: "string \<Rightarrow> bool" where
  "isMessageType type =
     List.member [CHAT_USER, AI_ADVICE, BIZ_DECISION, BIZ_OUTCOME, CHAT_APPEND] type"

definition getMessageDirection :: "string \<Rightarrow> string option" where
  "getMessageDirection type =
     (if type = CHAT_USER \<or> type = BIZ_DECISION then Some ''out''
      else if type = AI_ADVICE \<or> type = BIZ_OUTCOME then Some ''in''
      else None)"

definition getMessageTag :: "string \<Rightarrow> string option" where
  "getMessageTag type =
     (if type = BIZ_DECISION then Some ''DECISION''
      else if type = BIZ_OUTCOME then Some ''OUTCOME''
      else None)"

section \<open>The store (idb.js)\<close>

text \<open>
  The IndexedDB database with the object stores the chain engine uses. The meta store
  holds the keys \<^verbatim>\<open>chain_head\<close>, \<^verbatim>\<open>chain_len\<close> and \<^verbatim>\<open>read_only\<close>, each absent
  (\<open>None\<close>) or present. \<open>state_chain\<close> lists the stored segments in key order (the key
  path is \<^verbatim>\<open>seq\<close>), as \<^verbatim>\<open>getAll()\<close> returns them; \<open>sync_log\<close> is keyed by nonce and
  \<open>messages_store\<close> by id. The four caps records of an identity (\<^verbatim>\<open>daily:hid\<close>,
  \<^verbatim>\<open>monthly:hid\<close>, \<^verbatim>\<open>yearly:hid\<close>, \<^verbatim>\<open>total:hid\<close>) are written together by
  \<^verbatim>\<open>saveCaps\<close> only, so they are one entry of \<open>caps_store\<close>.

  Requests complete in program order, and a constraint error of an \<^verbatim>\<open>add\<close> aborts
  the whole transaction. A transaction accepts requests only while it is active: a
  callback that awaits something other than one of its requests may find it inactive
  when it resumes, and a request made then throws. Failures of the storage device itself
  are not modelled.
\<close>

record read_only_rec =
  enabled :: bool
  ro_reason :: string
  ro_time :: int

record message =
  m_id :: string
  m_seq :: int
  m_ts :: int
  m_type :: string
  m_peer :: json
  m_dir :: "string option"
  m_tag :: "string option"
  m_text :: json
  m_hid :: string
  m_decision :: json
  m_outcome :: json
  m_scores :: json
  m_bubbles :: json

record caps_rec =
  daily :: int
  monthly :: int
  yearly :: int
  total_count :: int
  dailyReset :: int
  monthlyReset :: int
  yearlyReset :: int

record database =
  meta_chain_head :: "string option"
  meta_chain_len :: "int option"
  meta_read_only :: "read_only_rec option"
  state_chain :: "segment list"
  sync_log :: "(string \<times> int) list"
  messages_store :: "message list"
  caps_store :: "string \<Rightarrow> caps_rec option"

definition empty_database :: database where
  "empty_database =
     \<lparr>meta_chain_head = None, meta_chain_len = None, meta_read_only = None, state_chain = [],
      sync_log = [], messages_store = [], caps_store = (\<lambda>h. None)\<rparr>"

text \<open>\<^verbatim>\<open>(await getMeta(db, 'chain_head')) || 'GENESIS'\<close>: an empty string is falsy too.\<close>

definition getChainHead :: "database \<Rightarrow> string" where
  "getChainHead d =
     (case meta_chain_head d of
        None \<Rightarrow> ''GENESIS''
      | Some h \<Rightarrow> if h = [] then ''GENESIS'' else h)"

definition getChainLen :: "database \<Rightarrow> int" where
  "getChainLen d = (case meta_chain_len d of None \<Rightarrow> 0 | Some n \<Rightarrow> if n = 0 then 0 else n)"

definition getSTABySeq :: "database \<Rightarrow> int \<Rightarrow> segment option" where
  "getSTABySeq d k = find (\<lambda>s. seq s = k) (state_chain d)"

definition nonceExists :: "database \<Rightarrow> string \<Rightarrow> bool" where
  "nonceExists d n = (map_of (sync_log d) n \<noteq> None)"

definition getAllSTAs :: "database \<Rightarrow> segment list" where
  "getAllSTAs d = sort_key seq (state_chain d)"

section \<open>Chain integrity latch (integrity.js)\<close>

definition enterReadOnlyMode :: "int \<Rightarrow> database \<Rightarrow> database" where
  "enterReadOnlyMode now d =
     d\<lparr>meta_read_only :=
          Some \<lparr>enabled = True, ro_reason = ''corruption_detected'', ro_time = now\<rparr>\<rparr>"

definition isReadOnlyMode :: "database \<Rightarrow> bool" where
  "isReadOnlyMode d = (case meta_read_only d of None \<Rightarrow> False | Some r \<Rightarrow> enabled r)"

definition exitReadOnlyMode :: "int \<Rightarrow> database \<Rightarrow> database" where
  "exitReadOnlyMode now d =
     d\<lparr>meta_read_only := Some \<lparr>enabled = False, ro_reason = [], ro_time = now\<rparr>\<rparr>"

section \<open>UTC calendar arithmetic of Date\<close>

text \<open>
  The methods of \<^verbatim>\<open>Date\<close> that caps.js calls, written out after the ECMAScript
  definitions of Day, TimeWithinDay, DayFromYear, YearFromTime, MonthFromTime, MakeDay and
  MakeDate. Time values are integers of milliseconds; the range limit of Date
  (\<open>8.64 \<times> 10\<^sup>1\<^sup>5\<close> ms) is not modelled.
\<close>

definition msPerDay :: int where
  "msPerDay = 86400000"

definition Day :: "int \<Rightarrow> int" where
  "Day t = t div msPerDay"

definition TimeWithinDay :: "int \<Rightarrow> int" where
  "TimeWithinDay t = t mod msPerDay"

definition DayFromYear :: "int \<Rightarrow> int" where
  "DayFromYear y =
     365 * (y - 1970) + (y - 1969) div 4 - (y - 1901) div 100 + (y - 1601) div 400"

definition InLeapYear :: "int \<Rightarrow> bool" where
  "InLeapYear y = (y mod 4 = 0 \<and> (y mod 100 \<noteq> 0 \<or> y mod 400 = 0))"

text \<open>
  YearFromTime is the largest year whose first day is not after the day of \<open>t\<close>; the
  search runs upwards from a year that is not after it.
\<close>

function year_search :: "int \<Rightarrow> int \<Rightarrow> int" where
  "year_search d y = (if DayFromYear (y + 1) \<le> d then year_search d (y + 1) else y)"
  by pat_completeness auto
termination
proof (relation "measure (\<lambda>(d, y). nat (d - DayFromYear (y + 1) + 1))")
  show "wf (measure (\<lambda>(d, y). nat (d - DayFromYear (y + 1) + 1)))"
    by simp
next
  fix d y :: int
  assume le: "DayFromYear (y + 1) \<le> d"
  have p4: "(y + 1 - 1969) div 4 \<le> (y + 1 + 1 - 1969) div 4"
    by (rule zdiv_mono1) simp_all
  have "(y + 1 + 1 - 1901) div 100 \<le> (y + 1 - 1901 + 100) div 100"
    by (rule zdiv_mono1) simp_all
  then have p100: "(y + 1 + 1 - 1901) div 100 \<le> (y + 1 - 1901) div 100 + 1"
    by simp
  have p400: "(y + 1 - 1601) div 400 \<le> (y + 1 + 1 - 1601) div 400"
    by (rule zdiv_mono1) simp_all
  have lin: "p \<le> p' \<Longrightarrow> q' \<le> q + 1 \<Longrightarrow> r \<le> r' \<Longrightarrow>
      365 * (y + 1 - 1970) + p - q + r < 365 * (y + 1 + 1 - 1970) + p' - q' + r'"
    for p p' q q' r r' :: int
    by simp
  have "DayFromYear (y + 1) < DayFromYear (y + 1 + 1)"
    unfolding DayFromYear_def by (rule lin [OF p4 p100 p400])
  with le show "((d, y + 1), (d, y)) \<in> measure (\<lambda>(d, y). nat (d - DayFromYear (y + 1) + 1))"
    by simp
qed

declare year_search.simps [simp del]

definition YearFromDay :: "int \<Rightarrow> int" where
  "YearFromDay d = year_search d (1970 + (if 0 \<le> d then d div 366 else d div 365))"

definition YearFromTime :: "int \<Rightarrow> int" where
  "YearFromTime t = YearFromDay (Day t)"

definition DayWithinYear :: "int \<Rightarrow> int" where
  "DayWithinYear t = Day t - DayFromYear (YearFromTime t)"

text \<open>The day of the year on which month \<open>m\<close> (0 to 11) starts; 12 is the year's length.\<close>

definition month_start :: "int \<Rightarrow> bool \<Rightarrow> int" where
  "month_start m leap =
     (let l = (if leap then 1 else 0) in
      if m = 0 then 0 else if m = 1 then 31 else if m = 2 then 59 + l
      else if m = 3 then 90 + l else if m = 4 then 120 + l else if m = 5 then 151 + l
      else if m = 6 then 181 + l else if m = 7 then 212 + l else if m = 8 then 243 + l
      else if m = 9 then 273 + l else if m = 10 then 304 + l else if m = 11 then 334 + l
      else 365 + l)"

definition MonthFromTime :: "int \<Rightarrow> int" where
  "MonthFromTime t =
     (let dwy = DayWithinYear t; leap = InLeapYear (YearFromTime t) in
      if dwy < month_start 1 leap then 0 else if dwy < month_start 2 leap then 1
      else if dwy < month_start 3 leap then 2 else if dwy < month_start 4 leap then 3
      else if dwy < month_start 5 leap then 4 else if dwy < month_start 6 leap then 5
      else if dwy < month_start 7 leap then 6 else if dwy < month_start 8 leap then 7
      else if dwy < month_start 9 leap then 8 else if dwy < month_start 10 leap then 9
      else if dwy < month_start 11 leap then 10 else 11)"

definition MakeDay :: "int \<Rightarrow> int \<Rightarrow> int \<Rightarrow> int" where
  "MakeDay year month dt =
     (let ym = year + month div 12; mn = month mod 12 in
      DayFromYear ym + month_start mn (InLeapYear ym) + dt - 1)"

definition MakeDate :: "int \<Rightarrow> int \<Rightarrow> int" where
  "MakeDate day time = day * msPerDay + time"

text \<open>\<^verbatim>\<open>setUTCHours(h, 0, 0, 0)\<close>, \<^verbatim>\<open>setUTCMonth(m, d)\<close> and \<^verbatim>\<open>setUTCFullYear(y, m, d)\<close>.\<close>

definition setUTCHours :: "int \<Rightarrow> int \<Rightarrow> int" where
  "setUTCHours t h = MakeDate (Day t) (h * 3600000)"

definition setUTCMonth :: "int \<Rightarrow> int \<Rightarrow> int \<Rightarrow> int" where
  "setUTCMonth t m d = MakeDate (MakeDay (YearFromTime t) m d) (TimeWithinDay t)"

definition setUTCFullYear :: "int \<Rightarrow> int \<Rightarrow> int \<Rightarrow> int \<Rightarrow> int" where
  "setUTCFullYear t y m d = MakeDate (MakeDay y m d) (TimeWithinDay t)"

section \<open>Caps tracker (caps.js)\<close>

definition getNextDailyReset :: "int \<Rightarrow> int" where
  "getNextDailyReset now = setUTCHours now 24"

definition getNextMonthlyReset :: "int \<Rightarrow> int" where
  "getNextMonthlyReset now = setUTCHours (setUTCMonth now (MonthFromTime now + 1) 1) 0"

definition getNextYearlyReset :: "int \<Rightarrow> int" where
  "getNextYearlyReset now = setUTCHours (setUTCFullYear now (YearFromTime now + 1) 0 1) 0"

text \<open>\<^verbatim>\<open>loadCaps\<close>: a record that is not stored reads as zero counts and resets.\<close>

definition loadCaps :: "database \<Rightarrow> string \<Rightarrow> caps_rec" where
  "loadCaps d hid =
     (case caps_store d hid of
        Some c \<Rightarrow> c
      | None \<Rightarrow> \<lparr>daily = 0, monthly = 0, yearly = 0, total_count = 0, dailyReset = 0,
                 monthlyReset = 0, yearlyReset = 0\<rparr>)"

definition saveCaps :: "database \<Rightarrow> string \<Rightarrow> caps_rec \<Rightarrow> database" where
  "saveCaps d hid caps = d\<lparr>caps_store := (caps_store d)(hid \<mapsto> caps)\<rparr>"

definition needsReset :: "caps_rec \<Rightarrow> int \<Rightarrow> bool" where
  "needsReset caps now =
     (now \<ge> dailyReset caps \<or> now \<ge> monthlyReset caps \<or> now \<ge> yearlyReset caps)"

text \<open>\<^verbatim>\<open>applyResets\<close> mutates the record and returns whether a reset occurred.\<close>

definition applyResets :: "caps_rec \<Rightarrow> int \<Rightarrow> caps_rec \<times> bool" where
  "applyResets caps now =
     (let (c1, r1) = (if now \<ge> dailyReset caps
                      then (caps\<lparr>daily := 0, dailyReset := getNextDailyReset now\<rparr>, True)
                      else (caps, False));
          (c2, r2) = (if now \<ge> monthlyReset c1
                      then (c1\<lparr>monthly := 0, monthlyReset := getNextMonthlyReset now\<rparr>, True)
                      else (c1, r1));
          (c3, r3) = (if now \<ge> yearlyReset c2
                      then (c2\<lparr>yearly := 0, yearlyReset := getNextYearlyReset now\<rparr>, True)
                      else (c2, r2))
      in (c3, r3))"

text \<open>The object \<^verbatim>\<open>formatCaps\<close> returns; its \<^verbatim>\<open>limits\<close> are the three constants.\<close>

record caps_info =
  i_daily :: int
  i_monthly :: int
  i_yearly :: int
  i_total :: int
  avail_daily :: int
  avail_monthly :: int
  avail_yearly :: int

definition formatCaps :: "caps_rec \<Rightarrow> caps_info" where
  "formatCaps caps =
     \<lparr>i_daily = daily caps, i_monthly = monthly caps, i_yearly = yearly caps,
      i_total = total_count caps, avail_daily = DAILY_CAP - daily caps,
      avail_monthly = MONTHLY_CAP - monthly caps, avail_yearly = YEARLY_CAP - yearly caps\<rparr>"

text \<open>
  The tracker's state is its cache (hid to record) and the caps store of the database;
  \<open>now\<close> is the value of \<^verbatim>\<open>Date.now()\<close> read by \<^verbatim>\<open>getCurrentCaps\<close>.
\<close>

type_synonym caps_cache = "string \<Rightarrow> caps_rec option"

definition getCurrentCaps ::
  "caps_cache \<Rightarrow> database \<Rightarrow> string \<Rightarrow> int \<Rightarrow> caps_info \<times> caps_cache \<times> database" where
  "getCurrentCaps cache d hid now =
     (case (case cache hid of Some c \<Rightarrow> if needsReset c now then None else Some c
                                | None \<Rightarrow> None) of
        Some cached \<Rightarrow> (formatCaps cached, cache, d)
      | None \<Rightarrow>
          (let (caps, reset) = applyResets (loadCaps d hid) now;
               d' = (if reset then saveCaps d hid caps else d)
           in (formatCaps caps, cache(hid \<mapsto> caps), d')))"

datatype incr_result = IncrOk caps_info | IncrFail string caps_info

definition incrementCaps ::
  "caps_cache \<Rightarrow> database \<Rightarrow> string \<Rightarrow> int \<Rightarrow> int \<Rightarrow> incr_result \<times> caps_cache \<times> database" where
  "incrementCaps cache d hid amount now =
     (let (caps, cache1, d1) = getCurrentCaps cache d hid now in
      if i_daily caps + amount > DAILY_CAP then (IncrFail ''daily_cap_exceeded'' caps, cache1, d1)
      else if i_monthly caps + amount > MONTHLY_CAP then
        (IncrFail ''monthly_cap_exceeded'' caps, cache1, d1)
      else if i_yearly caps + amount > YEARLY_CAP then
        (IncrFail ''yearly_cap_exceeded'' caps, cache1, d1)
      else
        (let rec0 = (case cache1 hid of Some r \<Rightarrow> r | None \<Rightarrow> loadCaps d1 hid);
             rec1 = rec0\<lparr>daily := daily rec0 + amount, monthly := monthly rec0 + amount,
                         yearly := yearly rec0 + amount,
                         total_count := total_count rec0 + amount\<rparr>
         in (IncrOk (formatCaps rec1), cache1(hid \<mapsto> rec1), saveCaps d1 hid rec1)))"

definition clearCache :: "caps_cache \<Rightarrow> caps_cache" where
  "clearCache cache = (\<lambda>h. None)"

section \<open>Validation (validation.js)\<close>

text \<open>
  A validation result is \<^verbatim>\<open>{ok: true}\<close> or \<^verbatim>\<open>{ok: false, rule, reason, message}\<close>; the
  human-readable message is left out.
\<close>

datatype vresult = Pass | Fail nat string

text \<open>
  \<^verbatim>\<open>parseInt(s, 10)\<close>: leading white space, an optional sign, then the longest run of
  decimal digits; \<open>None\<close> is NaN.
\<close>

definition parseInt10 :: "string \<Rightarrow> int option" where
  "parseInt10 s =
     (let t = dropWhile is_space s;
          neg = (t \<noteq> [] \<and> hd t = CHR ''-'');
          u = (if t \<noteq> [] \<and> (hd t = CHR ''-'' \<or> hd t = CHR ''+'') then tl t else t);
          ds = takeWhile is_digit u
      in if ds = [] then None else Some (if neg then - digits_val ds else digits_val ds))"

definition ref_seq :: "string \<Rightarrow> int option" where
  "ref_seq r = parseInt10 (takeWhile (\<lambda>c. c \<noteq> CHR '':'') r)"

definition validateCounterRelationship :: "database \<Rightarrow> segment \<Rightarrow> vresult" where
  "validateCounterRelationship d segment =
     (case (unlocker_ref segment, unlocked_ref segment) of
        (Some a, Some b) \<Rightarrow>
          if a = [] \<or> b = [] then Pass
          else (case (ref_seq a, ref_seq b) of
                  (Some unlockerSeq, Some unlockedSeq) \<Rightarrow>
                    if unlockerSeq \<le> unlockedSeq then Fail 1 ''counter_order''
                    else if getSTABySeq d unlockerSeq = None \<or> getSTABySeq d unlockedSeq = None
                    then Fail 1 ''missing_refs''
                    else Pass
                | _ \<Rightarrow> Fail 1 ''invalid_refs'')
      | _ \<Rightarrow> Pass)"

text \<open>
  The caps tracker is optional (\<open>None\<close>: the check is skipped). Reading the caps may
  reset and save them, so the rule returns the tracker's cache and the database as well.
\<close>

definition validateCaps ::
  "caps_cache option \<Rightarrow> database \<Rightarrow> segment \<Rightarrow> int \<Rightarrow> vresult \<times> caps_cache option \<times> database" where
  "validateCaps tracker d segment now =
     (case tracker of
        None \<Rightarrow> (Pass, None, d)
      | Some cache \<Rightarrow>
          (let (caps, cache', d') = getCurrentCaps cache d (current_owner segment) now in
           (if i_daily caps \<ge> DAILY_CAP then Fail 2 ''daily_cap_exceeded''
            else if i_monthly caps \<ge> MONTHLY_CAP then Fail 2 ''monthly_cap_exceeded''
            else if i_yearly caps \<ge> YEARLY_CAP then Fail 2 ''yearly_cap_exceeded''
            else Pass,
            Some cache', d')))"

definition validateRateLimit :: "database \<Rightarrow> segment \<Rightarrow> vresult" where
  "validateRateLimit d segment =
     (let currentSeq = getChainLen d in
      if currentSeq > 0 then
        (case getSTABySeq d currentSeq of
           Some prevSeg \<Rightarrow>
             if author_hid prevSeg = author_hid segment then
               (let timeDiff = timestamp segment - timestamp prevSeg in
                if timeDiff < MIN_BLOCK_INTERVAL_MS then Fail 3 ''rate_limit'' else Pass)
             else Pass
         | None \<Rightarrow> Pass)
      else Pass)"

text \<open>
  Rule 4. The subtraction in \<^verbatim>\<open>Date.now() - (livenessProof.timestamp || 0)\<close> converts its
  right operand with ToNumber, whatever the timestamp is (a number, a numeric string, an
  array); the age is compared with the tolerance on one side only.
\<close>

definition livenessProof_of :: "segment \<Rightarrow> json" where
  "livenessProof_of segment =
     js_or (get_prop (payload segment) ''livenessProof'') (author_livenessProof segment)"

definition validateLiveness :: "segment \<Rightarrow> int \<Rightarrow> vresult" where
  "validateLiveness segment now =
     (let livenessProof = livenessProof_of segment in
      if \<not> truthy livenessProof then Pass
      else if \<not> typeof_object livenessProof then Fail 4 ''invalid_liveness''
      else if difference_exceeds now
                (to_number (js_or (get_prop livenessProof ''timestamp'') (JNum 0)))
                UTC_TOLERANCE_MS
      then Fail 4 ''stale_liveness''
      else Pass)"

definition validateOwnerTransition :: "segment \<Rightarrow> vresult" where
  "validateOwnerTransition segment =
     (if sta_type segment = ''tvm.transfer'' then
        (case previous_owner segment of
           None \<Rightarrow> Fail 5 ''missing_previous_owner''
         | Some po \<Rightarrow>
             if po = [] then Fail 5 ''missing_previous_owner''
             else if po = current_owner segment then Fail 5 ''same_owner''
             else Pass)
      else Pass)"

definition validateHistoryHash :: "database \<Rightarrow> segment \<Rightarrow> vresult" where
  "validateHistoryHash d segment =
     (if prev_hash segment \<noteq> getChainHead d then Fail 6 ''bad_prev_hash'' else Pass)"

definition validateSequence :: "database \<Rightarrow> segment \<Rightarrow> vresult" where
  "validateSequence d segment =
     (if seq segment \<noteq> getChainLen d + 1 then Fail 7 ''bad_seq'' else Pass)"

definition validateSignature :: "crypto \<Rightarrow> segment \<Rightarrow> vresult" where
  "validateSignature cr segment =
     (case importPublicKeyJwk cr (author_pubJwk segment) of
        None \<Rightarrow> Fail 8 ''signature_error''
      | Some publicKey \<Rightarrow>
          (case signature segment of
             None \<Rightarrow> Fail 8 ''bad_signature''
           | Some sg \<Rightarrow>
               if subtle_verify cr publicKey (getSignableContent segment) sg then Pass
               else Fail 8 ''bad_signature''))"

definition validateNonce :: "database \<Rightarrow> segment \<Rightarrow> vresult" where
  "validateNonce d segment =
     (if nonceExists d (nonce segment) then Fail 9 ''replay_nonce'' else Pass)"

text \<open>\<^verbatim>\<open>validateTimestamp\<close>, the drift check beside the rules, compares both ways.\<close>

definition validateTimestamp :: "int \<Rightarrow> int \<Rightarrow> vresult" where
  "validateTimestamp ts now =
     (if \<bar>now - ts\<bar> > UTC_TOLERANCE_MS then Fail 0 ''timestamp_drift'' else Pass)"

text \<open>
  \<^verbatim>\<open>validateSegment\<close> runs the rules in order and returns the first failure.
  \<open>caps_now\<close> and \<open>live_now\<close> are the clock readings of rules 2 and 4.
\<close>

definition validateSegment ::
  "crypto \<Rightarrow> database \<Rightarrow> caps_cache option \<Rightarrow> segment \<Rightarrow> bool \<Rightarrow> int \<Rightarrow> int \<Rightarrow>
   vresult \<times> caps_cache option \<times> database" where
  "validateSegment cr d tracker segment skipLivenessCheck caps_now live_now =
     (if validateSegmentStructure segment \<noteq> None then (Fail 0 ''invalid_structure'', tracker, d)
      else if validateCounterRelationship d segment \<noteq> Pass
      then (validateCounterRelationship d segment, tracker, d)
      else
        (let (rule2, tracker', d') = validateCaps tracker d segment caps_now in
         if rule2 \<noteq> Pass then (rule2, tracker', d')
         else if validateRateLimit d' segment \<noteq> Pass then (validateRateLimit d' segment, tracker', d')
         else if \<not> skipLivenessCheck \<and> validateLiveness segment live_now \<noteq> Pass
         then (validateLiveness segment live_now, tracker', d')
         else if validateOwnerTransition segment \<noteq> Pass
         then (validateOwnerTransition segment, tracker', d')
         else if validateHistoryHash d' segment \<noteq> Pass
         then (validateHistoryHash d' segment, tracker', d')
         else if validateSequence d' segment \<noteq> Pass then (validateSequence d' segment, tracker', d')
         else if validateSignature cr segment \<noteq> Pass then (validateSignature cr segment, tracker', d')
         else if validateNonce d' segment \<noteq> Pass then (validateNonce d' segment, tracker', d')
         else (Pass, tracker', d')))"

section \<open>State manager (state.js)\<close>

record identity =
  id_hid :: string
  id_pubJwk :: json
  id_privateKey :: cryptokey

text \<open>
  The keys of the \<^verbatim>\<open>messages\<close> Map. A Map compares a string, a number or a boolean by
  value and an object or an array by identity. The identity of an object is a reference:
  \<open>CallerObject n\<close> for an object that the caller of \<^verbatim>\<open>commitAction\<close> holds (two
  commits that are passed the same object pass the same reference), \<open>StoredClone i\<close>
  for the structured clone that a read of the store makes for the \<open>i\<close>-th record it
  returns, a new object at every read.
\<close>

datatype obj_ref = CallerObject nat | StoredClone nat

datatype chat_key = KeyValue json | KeyObject obj_ref

text \<open>
  The \<^verbatim>\<open>StateManager\<close> object together with the database it holds: \<open>db_open\<close> says
  that \<^verbatim>\<open>this.db\<close> is set, \<open>capsTracker\<close> is the cache of the tracker passed to
  \<^verbatim>\<open>init\<close> (\<open>None\<close> without a tracker), \<open>messages\<close> is the Map from chat id to message
  array (the order in which the Map lists its keys is not modelled), and the two scores
  are the in-memory score projection.
\<close>

record world =
  db :: database
  db_open :: bool
  identity :: "identity option"
  capsTracker :: "caps_cache option"
  messages :: "chat_key \<Rightarrow> message list option"
  richScore :: int
  businessScore :: int

datatype commit_result = CommitOk int string | CommitFail string

definition createMessageProjection :: "segment \<Rightarrow> message" where
  "createMessageProjection sta =
     (let pl = js_or (payload sta) (JObj []) in
      \<lparr>m_id = show_int (seq sta) @ '':'' @ nonce sta,
       m_seq = seq sta,
       m_ts = timestamp sta,
       m_type = sta_type sta,
       m_peer = js_or (js_or (get_prop pl ''chatId'') (get_prop pl ''selected_character'')) JNull,
       m_dir = getMessageDirection (sta_type sta),
       m_tag = getMessageTag (sta_type sta),
       m_text = js_or (get_prop pl ''text'') (JStr []),
       m_hid = (if author_hid sta \<noteq> [] then author_hid sta else current_owner sta),
       m_decision = js_or (get_prop pl ''decision'') JNull,
       m_outcome = js_or (get_prop pl ''outcome'') JNull,
       m_scores = js_or (get_prop pl ''scores'') JNull,
       m_bubbles = js_or (get_prop pl ''bubbles'') JNull\<rparr>)"

text \<open>
  \<^verbatim>\<open>addToMessagesProjection\<close>; \<open>ref\<close> is the identity of the object \<^verbatim>\<open>message.peer\<close>
  when the peer is an object or an array.
\<close>

definition addToMessagesProjection :: "obj_ref \<Rightarrow> message \<Rightarrow> world \<Rightarrow> world" where
  "addToMessagesProjection ref msg w =
     (let chatId = js_or (m_peer msg) (JStr ''default'');
          k = (if typeof_object chatId then KeyObject ref else KeyValue chatId);
          old = (case messages w k of None \<Rightarrow> [] | Some ms \<Rightarrow> ms)
      in w\<lparr>messages := (messages w)(k \<mapsto> old @ [msg])\<rparr>)"

fun is_number :: "json \<Rightarrow> bool" where
  "is_number (JNum n) = True"
| "is_number _ = False"

fun number_of :: "json \<Rightarrow> int" where
  "number_of (JNum n) = n"
| "number_of _ = 0"

definition updateScores :: "segment \<Rightarrow> world \<Rightarrow> world" where
  "updateScores sta w =
     (let scores = get_prop (payload sta) ''scores'';
          w1 = (if truthy scores \<and> is_number (get_prop scores ''rich'')
                then w\<lparr>richScore := number_of (get_prop scores ''rich'')\<rparr> else w);
          w2 = (if truthy scores \<and> is_number (get_prop scores ''business'')
                then w1\<lparr>businessScore := number_of (get_prop scores ''business'')\<rparr> else w1);
          w3 = (if sta_type sta = BIZ_DECISION \<and> get_prop (payload sta) ''decision'' = JStr ''ACCEPT''
                then w2\<lparr>richScore := min 100 (richScore w2 + 2)\<rparr> else w2);
          w4 = (if sta_type sta = BIZ_OUTCOME \<and> get_prop (payload sta) ''outcome'' = JStr ''SUCCESS''
                then w3\<lparr>richScore := min 100 (richScore w3 + 5),
                         businessScore := min 100 (businessScore w3 + 3)\<rparr> else w3)
      in w4)"

text \<open>
  The part of the \<^verbatim>\<open>appendSTA\<close> callback and of the \<^verbatim>\<open>rebuildProjections\<close> loop body
  that touches the in-memory views: project the message when the type is message-like,
  then update the scores.
\<close>

definition project_sta :: "obj_ref \<Rightarrow> segment \<Rightarrow> world \<Rightarrow> world" where
  "project_sta ref sta w =
     updateScores sta
       (if isMessageType (sta_type sta)
        then addToMessagesProjection ref (createMessageProjection sta) w
        else w)"

text \<open>
  \<^verbatim>\<open>add\<close> on the three stores fails with a constraint error when the key is taken (the
  \<^verbatim>\<open>seq\<close> of a stored segment, a logged nonce, the id of a stored message) or when the
  unique index \<^verbatim>\<open>by_nonce\<close> of the chain already has the nonce.
\<close>

definition add_conflict :: "database \<Rightarrow> segment \<Rightarrow> bool" where
  "add_conflict d sta =
     (List.member (map seq (state_chain d)) (seq sta)
      \<or> List.member (map nonce (state_chain d)) (nonce sta)
      \<or> List.member (map fst (sync_log d)) (nonce sta)
      \<or> (isMessageType (sta_type sta)
          \<and> List.member (map m_id (messages_store d)) (m_id (createMessageProjection sta))))"

text \<open>
  The writes of the transaction: the three \<^verbatim>\<open>add\<close> requests that the callback makes
  before it awaits the hash, and the two \<^verbatim>\<open>put\<close> requests on the meta store that it
  makes after.
\<close>

definition add_writes :: "segment \<Rightarrow> database \<Rightarrow> database" where
  "add_writes sta d =
     d\<lparr>state_chain := insort_key seq sta (state_chain d),
       sync_log := sync_log d @ [(nonce sta, timestamp sta)],
       messages_store :=
         (if isMessageType (sta_type sta) then messages_store d @ [createMessageProjection sta]
          else messages_store d)\<rparr>"

definition meta_writes :: "string \<Rightarrow> segment \<Rightarrow> database \<Rightarrow> database" where
  "meta_writes newHead sta d =
     d\<lparr>meta_chain_head := Some newHead, meta_chain_len := Some (seq sta)\<rparr>"

text \<open>
  \<^verbatim>\<open>appendSTA\<close>. The in-memory views are updated inside the callback, before the
  transaction completes and whatever becomes of it. The callback then awaits
  \<^verbatim>\<open>sha256Hex\<close>, which is not a request of the transaction; \<open>txActive\<close> says whether
  the transaction is still active when the callback resumes.

    \<^item> A constraint error of an \<^verbatim>\<open>add\<close> aborts the transaction: the database is as it
      was and the result is \<^verbatim>\<open>append_error\<close>.
    \<^item> Otherwise, when the transaction is still active, the two \<^verbatim>\<open>put\<close> requests join
      it, all five writes are committed together and the result is \<^verbatim>\<open>ok\<close>.
    \<^item> Otherwise \<^verbatim>\<open>put\<close> throws. The exception is caught by \<^verbatim>\<open>appendSTA\<close>, which
      answers \<^verbatim>\<open>append_error\<close>; nothing aborts the transaction, so it commits with
      the three \<^verbatim>\<open>add\<close> requests alone and the meta store is not updated.

  \<open>ref\<close> is the identity of the chat id object of the payload, when it is one.
\<close>

definition appendSTA ::
  "crypto \<Rightarrow> bool \<Rightarrow> obj_ref \<Rightarrow> segment \<Rightarrow> world \<Rightarrow> commit_result \<times> world" where
  "appendSTA cr txActive ref sta w =
     (let w1 = project_sta ref sta w;
          newHead = sha256Hex cr (block_hash_input sta)
      in if add_conflict (db w) sta then (CommitFail ''append_error'', w1)
         else if txActive
         then (CommitOk (seq sta) newHead,
               w1\<lparr>db := meta_writes newHead sta (add_writes sta (db w))\<rparr>)
         else (CommitFail ''append_error'', w1\<lparr>db := add_writes sta (db w)\<rparr>))"

text \<open>
  \<^verbatim>\<open>commitAction(type, payload, options)\<close>. \<open>ref\<close> is the identity of the object
  \<^verbatim>\<open>payload.chatId || payload.selected_character\<close> when that is an object;
  \<open>previousOwner\<close> is \<^verbatim>\<open>options.previousOwner\<close> (\<open>None\<close> when it is not given); \<open>now\<close>
  and \<open>rnd\<close> are the clock and the random nonce read by \<^verbatim>\<open>createSegment\<close>, \<open>caps_now\<close>
  the clock read by the caps rule, and \<open>txActive\<close> is what the append meets after its
  await. An exception of the signing call is caught and gives \<^verbatim>\<open>commit_error\<close>. The
  \<^verbatim>\<open>commit\<close> event is not modelled.
\<close>

definition commitAction ::
  "crypto \<Rightarrow> string \<Rightarrow> json \<Rightarrow> obj_ref \<Rightarrow> string option \<Rightarrow> int \<Rightarrow> string \<Rightarrow> int \<Rightarrow> bool \<Rightarrow>
   world \<Rightarrow> commit_result \<times> world" where
  "commitAction cr type pl ref previousOwner now rnd caps_now txActive w =
     (if \<not> db_open w then (CommitFail ''not_initialized'', w)
      else case identity w of
        None \<Rightarrow> (CommitFail ''no_identity'', w)
      | Some idn \<Rightarrow>
          (let prevHash = getChainHead (db w);
               sq = getChainLen (db w) + 1;
               segment = createSegment (id_hid idn) (id_pubJwk idn) prevHash sq type pl
                           (case previousOwner of None \<Rightarrow> None
                            | Some po \<Rightarrow> if po = [] then None else Some po)
                           None None now rnd
           in case signSegment cr segment (id_privateKey idn) of
                None \<Rightarrow> (CommitFail ''commit_error'', w)
              | Some signedSegment \<Rightarrow>
                  (let (validation, tracker', d') =
                         validateSegment cr (db w) (capsTracker w) signedSegment True caps_now now;
                       w1 = w\<lparr>db := d', capsTracker := tracker'\<rparr>
                   in case validation of
                        Fail rule rsn \<Rightarrow> (CommitFail rsn, w1)
                      | Pass \<Rightarrow> appendSTA cr txActive ref signedSegment w1)))"

text \<open>
  \<^verbatim>\<open>rebuildProjections\<close>: clear the views, and unless the chain length is 0 replay the
  stored segments sorted by \<^verbatim>\<open>seq\<close>. The segments are the clones that \<^verbatim>\<open>getAll()\<close>
  returns, each with its position in that result as its identity.
\<close>

definition rebuildProjections :: "world \<Rightarrow> world" where
  "rebuildProjections w =
     (let w0 = w\<lparr>messages := (\<lambda>c. None), richScore := 0, businessScore := 0\<rparr> in
      if getChainLen (db w) = 0 then w0
      else foldl (\<lambda>acc (i, sta). project_sta (StoredClone i) sta acc) w0
             (sort_key (\<lambda>(i, sta). seq sta) (enumerate 0 (state_chain (db w)))))"

text \<open>A freshly constructed \<^verbatim>\<open>StateManager\<close> after \<^verbatim>\<open>init\<close> on a database.\<close>

definition init_world :: "database \<Rightarrow> identity option \<Rightarrow> caps_cache option \<Rightarrow> world" where
  "init_world d idn tracker =
     rebuildProjections
       \<lparr>db = d, db_open = True, identity = idn, capsTracker = tracker,
        messages = (\<lambda>c. None), richScore = 0, businessScore = 0\<rparr>"

section \<open>Application context (index.js)\<close>

text \<open>
  \<^verbatim>\<open>initializeApp\<close> reads the latch once into the constant \<^verbatim>\<open>readOnly\<close>; the
  \<^verbatim>\<open>commitAction\<close> of the context it returns tests that constant.
\<close>

definition context_commitAction ::
  "bool \<Rightarrow> crypto \<Rightarrow> string \<Rightarrow> json \<Rightarrow> obj_ref \<Rightarrow> int \<Rightarrow> string \<Rightarrow> int \<Rightarrow> bool \<Rightarrow> world \<Rightarrow>
   commit_result \<times> world" where
  "context_commitAction readOnly cr type pl ref now rnd caps_now txActive w =
     (if readOnly then (CommitFail ''read_only_mode'', w)
      else commitAction cr type pl ref None now rnd caps_now txActive w)"

section \<open>Backup restore eligibility (integrity.js)\<close>

text \<open>
  The two arguments of \<^verbatim>\<open>verifyBackupRestoreEligibility\<close> are objects with the fields
  \<^verbatim>\<open>chainLen\<close> and \<^verbatim>\<open>chainHead\<close>; the current state may be \<^verbatim>\<open>null\<close>, which is
  \<open>None\<close> here. The result object keeps its three fields.
\<close>

record chain_state =
  chainLen :: int
  chainHead :: string

record eligibility =
  canRestore :: bool
  requiresSync :: bool
  reason :: string

definition verifyBackupRestoreEligibility :: "chain_state \<Rightarrow> chain_state option \<Rightarrow> eligibility" where
  "verifyBackupRestoreEligibility backupData currentState =
     (case currentState of
        None \<Rightarrow> \<lparr>canRestore = True, requiresSync = False,
                  reason = ''Fresh install - no sync required''\<rparr>
      | Some cur \<Rightarrow>
          if chainLen cur = 0 then
            \<lparr>canRestore = True, requiresSync = False,
             reason = ''Fresh install - no sync required''\<rparr>
          else if chainLen backupData < chainLen cur then
            \<lparr>canRestore = False, requiresSync = True,
             reason = ''Backup is older than current state. Sync required to merge.''\<rparr>
          else if chainHead backupData \<noteq> chainHead cur then
            (if chainLen backupData > chainLen cur then
               \<lparr>canRestore = False, requiresSync = True,
                reason = ''Backup has diverged. Online sync required to resolve fork.''\<rparr>
             else
               \<lparr>canRestore = False, requiresSync = True,
                reason = ''Chain heads do not match. Sync required.''\<rparr>)
          else
            \<lparr>canRestore = True, requiresSync = False,
             reason = ''Backup matches current state''\<rparr>)"

text \<open>
  The decision table as the specification words it, over the four quantities
  \<open>L\<^sub>c\<close>, \<open>H\<^sub>c\<close>, \<open>L\<^sub>b\<close>, \<open>H\<^sub>b\<close>; the result is the pair (canRestore, requiresSync).
  It is compared with the function above, which is the one taken from the source.
\<close>

datatype restore_case = FreshInstall | BackupOlder | DivergedFork | HeadsMismatch | HeadsMatch

definition spec_restore_case :: "int \<Rightarrow> string \<Rightarrow> int \<Rightarrow> string \<Rightarrow> restore_case" where
  "spec_restore_case Lc Hc Lb Hb =
     (if Lc = 0 then FreshInstall
      else if Lb < Lc then BackupOlder
      else if Hb \<noteq> Hc \<and> Lb > Lc then DivergedFork
      else if Hb \<noteq> Hc then HeadsMismatch
      else HeadsMatch)"

fun spec_restore_verdict :: "restore_case \<Rightarrow> bool \<times> bool" where
  "spec_restore_verdict FreshInstall = (True, False)"
| "spec_restore_verdict BackupOlder = (False, True)"
| "spec_restore_verdict DivergedFork = (False, True)"
| "spec_restore_verdict HeadsMismatch = (False, True)"
| "spec_restore_verdict HeadsMatch = (True, False)"

section \<open>Runs of caps operations\<close>

text \<open>The operations of the caps tracker, and a run of them on its cache and the store.\<close>

datatype caps_op = GetCurrentCaps string int | IncrementCaps string int int | ClearCache

fun caps_step :: "caps_cache \<times> database \<Rightarrow> caps_op \<Rightarrow> caps_cache \<times> database" where
  "caps_step (cache, d) (GetCurrentCaps hid now) = snd (getCurrentCaps cache d hid now)"
| "caps_step (cache, d) (IncrementCaps hid amount now) = snd (incrementCaps cache d hid amount now)"
| "caps_step (cache, d) ClearCache = (clearCache cache, d)"

definition run_caps :: "caps_op list \<Rightarrow> caps_cache \<times> database \<Rightarrow> caps_cache \<times> database" where
  "run_caps ops st = foldl caps_step st ops"

text \<open>
  The counters of a record, or of the object a read returns, are within the caps; the
  tracker's invariant says so of every stored record and that a cached record is the
  stored one.
\<close>

definition within_caps :: "caps_rec \<Rightarrow> bool" where
  "within_caps c = (daily c \<le> 3600 \<and> monthly c \<le> 36000 \<and> yearly c \<le> 120000)"

definition info_within_caps :: "caps_info \<Rightarrow> bool" where
  "info_within_caps i = (i_daily i \<le> 3600 \<and> i_monthly i \<le> 36000 \<and> i_yearly i \<le> 120000)"

definition caps_inv :: "caps_cache \<times> database \<Rightarrow> bool" where
  "caps_inv st =
     (\<forall>h. within_caps (loadCaps (snd st) h) \<and>
          (case fst st h of None \<Rightarrow> True | Some c \<Rightarrow> c = loadCaps (snd st) h))"

section \<open>Concrete inputs\<close>

text \<open>
  Inputs on which the definitions are evaluated. The stand-ins for the WebCrypto calls
  only have to be functions: a tagged copy for the hash, a constant signature that the
  verification accepts.
\<close>

definition example_crypto :: crypto where
  "example_crypto =
     \<lparr>sha256Hex = (\<lambda>s. ''sha256:'' @ s),
      subtle_sign = (\<lambda>k s. Some ''c2ln''),
      importPublicKeyJwk = (\<lambda>j. Some (CryptoKey j)),
      subtle_verify = (\<lambda>k s g. g = ''c2ln'')\<rparr>"

definition example_identity :: identity where
  "example_identity =
     \<lparr>id_hid = ''HID-ABCD1234'', id_pubJwk = JObj [(''kty'', JStr ''EC'')],
      id_privateKey = CryptoKey (JStr ''d'')\<rparr>"

definition example_nonce :: string where
  "example_nonce = ''000102030405060708090a0b0c0d0e0f''"

definition example_payload :: json where
  "example_payload =
     JObj [(''chatId'', JStr ''hakim''), (''text'', JStr ''hello''), (''role'', JStr ''user'')]"

text \<open>An initialised state manager on an empty database, with a caps tracker.\<close>

definition example_world :: world where
  "example_world = init_world empty_database (Some example_identity) (Some (\<lambda>h. None))"

text \<open>The same, on a database whose read-only latch has been set.\<close>

definition latched_world :: world where
  "latched_world =
     init_world (enterReadOnlyMode 1699999999000 empty_database) (Some example_identity)
       (Some (\<lambda>h. None))"

text \<open>A segment whose payload carries a liveness proof dated 1,000,000 ms after its own clock.\<close>

definition future_proof_segment :: segment where
  "future_proof_segment =
     createSegment ''HID-ABCD1234'' (JObj [(''kty'', JStr ''EC'')]) ''GENESIS'' 1 CHAT_USER
       (JObj [(''chatId'', JStr ''hakim''),
              (''livenessProof'',
                 JObj [(''type'', JStr ''timestamp''), (''timestamp'', JNum 1700001000000)])])
       None None None 1700000000000 example_nonce"

definition example_messages :: "json list" where
  "example_messages = [JObj [(''text'', JStr ''hi'')], JObj [(''text'', JStr ''yo'')]]"

definition example_analysis :: json where
  "example_analysis =
     JObj [(''richScore'', JNum 85), (''businessScore'', JNum 80),
           (''motivator'', JStr ''greed''), (''category'', JStr ''wheat'')]"

text \<open>The segment that the first commit of \<open>example_payload\<close> builds and signs.\<close>

definition example_segment :: segment where
  "example_segment =
     (createSegment ''HID-ABCD1234'' (JObj [(''kty'', JStr ''EC'')]) ''GENESIS'' 1 CHAT_USER
        example_payload None None None 1700000000000 example_nonce)\<lparr>signature := Some ''c2ln''\<rparr>"

text \<open>A message payload that carries scores.\<close>

definition scored_payload :: json where
  "scored_payload =
     JObj [(''chatId'', JStr ''hakim''), (''text'', JStr ''hello''),
           (''scores'', JObj [(''rich'', JNum 80), (''business'', JNum 75)])]"

definition example_caps_ops :: "caps_op list" where
  "example_caps_ops = [IncrementCaps ''HID-ABCD1234'' 1 1700000000000]"

section \<open>Theorems\<close>

subsection \<open>Backup restore eligibility\<close>

text \<open>
  C3. For every current chain state \<open>(L\<^sub>c, H\<^sub>c)\<close> and backup \<open>(L\<^sub>b, H\<^sub>b)\<close>, the
  fields canRestore and requiresSync returned by \<^verbatim>\<open>verifyBackupRestoreEligibility\<close>
  are the ones the five-case table gives: fresh install, backup older, diverged fork,
  heads mismatch, heads match, tried in this order.
\<close>

theorem restore_eligibility_table:
  "(let r = verifyBackupRestoreEligibility
              \<lparr>chainLen = Lb, chainHead = Hb\<rparr> (Some \<lparr>chainLen = Lc, chainHead = Hc\<rparr>)
    in (canRestore r, requiresSync r))
   = spec_restore_verdict (spec_restore_case Lc Hc Lb Hb)"
  by (simp add: verifyBackupRestoreEligibility_def spec_restore_case_def)

subsection \<open>Rate limit\<close>

text \<open>
  C5. Rule 3 fails exactly when the chain is non-empty (the stored length is positive), the
  segment stored at that length exists and has the candidate's author HID, and the
  candidate's timestamp is less than 1000 ms after it; the only failure of the rule is
  \<^verbatim>\<open>rate_limit\<close> with rule number 3. A difference of exactly 1000 ms therefore passes
  and one of 999 ms fails.
\<close>

theorem rate_limit_iff:
  "(validateRateLimit d segment \<noteq> Pass) =
     (0 < getChainLen d \<and>
      (case getSTABySeq d (getChainLen d) of
         None \<Rightarrow> False
       | Some prevSeg \<Rightarrow>
           author_hid prevSeg = author_hid segment \<and>
           timestamp segment - timestamp prevSeg < 1000))
   \<and> (validateRateLimit d segment = Pass \<or> validateRateLimit d segment = Fail 3 ''rate_limit'')"
  by (simp add: validateRateLimit_def MIN_BLOCK_INTERVAL_MS_def Let_def split: option.splits)

text \<open>The two boundary cases, for any chain whose last segment is by the same author.\<close>

lemma rate_limit_boundary:
  assumes "0 < getChainLen d" and "getSTABySeq d (getChainLen d) = Some prevSeg"
    and "author_hid prevSeg = author_hid segment"
  shows "timestamp segment = timestamp prevSeg + 999 \<Longrightarrow>
           validateRateLimit d segment = Fail 3 ''rate_limit''"
    and "timestamp segment = timestamp prevSeg + 1000 \<Longrightarrow> validateRateLimit d segment = Pass"
  using assms by (simp_all add: validateRateLimit_def MIN_BLOCK_INTERVAL_MS_def Let_def)

subsection \<open>Liveness\<close>

text \<open>
  C6, at a concrete input. The tolerance constant is documented as \<open>\<plusminus>720\<close> seconds and the
  rule's own comment says that the proof must be within tolerance, but rule 4 measures the
  age \<open>now - timestamp\<close> of the proof and rejects only an age above 720,000 ms. A proof
  object dated 1,000,000 ms in the future differs from now by more than the tolerance and
  passes rule 4, while the drift check \<^verbatim>\<open>validateTimestamp\<close>, which compares the absolute
  difference with the same constant, refuses the same timestamp at the same clock. The
  same proof read 1,000,000 ms after its date is rejected as stale.
\<close>

theorem liveness_future_proof_accepted:
  "typeof_object (livenessProof_of future_proof_segment) \<and>
   get_prop (livenessProof_of future_proof_segment) ''timestamp'' = JNum 1700001000000 \<and>
   \<bar>1700000000000 - 1700001000000\<bar> > (720000 :: int) \<and>
   validateLiveness future_proof_segment 1700000000000 = Pass \<and>
   validateTimestamp 1700001000000 1700000000000 = Fail 0 ''timestamp_drift'' \<and>
   validateLiveness future_proof_segment 1700002000000 = Fail 4 ''stale_liveness''"
  by code_simp

text \<open>
  Rule 4 in general, for a proof whose timestamp is a number or is missing: a segment with
  no liveness proof (none in the payload and none on the author, or a falsy one) passes; a
  proof that is not an object fails with \<^verbatim>\<open>invalid_liveness\<close>; a proof object with the
  numeric timestamp \<open>t\<close> fails with \<^verbatim>\<open>stale_liveness\<close> exactly when \<open>now - t > 720000\<close>,
  and one without a timestamp is treated as dated 0.
\<close>

lemma liveness_one_sided:
  "(\<not> truthy (livenessProof_of segment) \<longrightarrow> validateLiveness segment now = Pass) \<and>
   (truthy (livenessProof_of segment) \<and> \<not> typeof_object (livenessProof_of segment) \<longrightarrow>
      validateLiveness segment now = Fail 4 ''invalid_liveness'') \<and>
   (truthy (livenessProof_of segment) \<and> typeof_object (livenessProof_of segment) \<and>
    get_prop (livenessProof_of segment) ''timestamp'' = JNum t \<longrightarrow>
      validateLiveness segment now =
        (if now - t > 720000 then Fail 4 ''stale_liveness'' else Pass)) \<and>
   (truthy (livenessProof_of segment) \<and> typeof_object (livenessProof_of segment) \<and>
    get_prop (livenessProof_of segment) ''timestamp'' = JUndef \<longrightarrow>
      validateLiveness segment now =
        (if now > 720000 then Fail 4 ''stale_liveness'' else Pass))"
  by (auto simp add: validateLiveness_def Let_def js_or_def UTC_TOLERANCE_MS_def
        difference_exceeds_def)

text \<open>
  The timestamp of a proof goes through ToNumber: a numeric string or a one-element array
  counts as the number it spells, a string that spells no number gives an age of NaN,
  which no comparison exceeds.
\<close>

lemma liveness_timestamp_conversion:
  "validateLiveness (future_proof_segment\<lparr>payload :=
       JObj [(''livenessProof'', JObj [(''timestamp'', JStr ''1700001000000'')])]\<rparr>)
     1700000000000 = Pass \<and>
   validateLiveness (future_proof_segment\<lparr>payload :=
       JObj [(''livenessProof'', JObj [(''timestamp'', JStr ''5'')])]\<rparr>)
     1700000000000 = Fail 4 ''stale_liveness'' \<and>
   validateLiveness (future_proof_segment\<lparr>payload :=
       JObj [(''livenessProof'', JObj [(''timestamp'', JArr [JNum 5])])]\<rparr>)
     1700000000000 = Fail 4 ''stale_liveness'' \<and>
   validateLiveness (future_proof_segment\<lparr>payload :=
       JObj [(''livenessProof'', JObj [(''timestamp'', JStr ''1.7e12'')])]\<rparr>)
     1700000720000 = Pass \<and>
   validateLiveness (future_proof_segment\<lparr>payload :=
       JObj [(''livenessProof'', JObj [(''timestamp'', JStr ''1.7e12'')])]\<rparr>)
     1700000720001 = Fail 4 ''stale_liveness'' \<and>
   validateLiveness (future_proof_segment\<lparr>payload :=
       JObj [(''livenessProof'', JObj [(''timestamp'', JStr ''yesterday'')])]\<rparr>)
     1700000000000 = Pass \<and>
   validateLiveness (future_proof_segment\<lparr>payload := JObj []\<rparr>) 1700000000000 = Pass \<and>
   validateLiveness (future_proof_segment\<lparr>payload := JObj [(''livenessProof'', JStr ''yes'')]\<rparr>)
     1700000000000 = Fail 4 ''invalid_liveness'' \<and>
   validateLiveness (future_proof_segment\<lparr>payload := JObj [(''livenessProof'', JObj [])]\<rparr>)
     1700000000000 = Fail 4 ''stale_liveness''"
  by code_simp

subsection \<open>The commit path skips the liveness rule\<close>

lemma rule_reasons:
  "validateCounterRelationship d s \<noteq> Fail r ''invalid_liveness''"
  "validateCounterRelationship d s \<noteq> Fail r ''stale_liveness''"
  "validateRateLimit d s \<noteq> Fail r ''invalid_liveness''"
  "validateRateLimit d s \<noteq> Fail r ''stale_liveness''"
  "validateOwnerTransition s \<noteq> Fail r ''invalid_liveness''"
  "validateOwnerTransition s \<noteq> Fail r ''stale_liveness''"
  "validateHistoryHash d s \<noteq> Fail r ''invalid_liveness''"
  "validateHistoryHash d s \<noteq> Fail r ''stale_liveness''"
  "validateSequence d s \<noteq> Fail r ''invalid_liveness''"
  "validateSequence d s \<noteq> Fail r ''stale_liveness''"
  "validateSignature cr s \<noteq> Fail r ''invalid_liveness''"
  "validateSignature cr s \<noteq> Fail r ''stale_liveness''"
  "validateNonce d s \<noteq> Fail r ''invalid_liveness''"
  "validateNonce d s \<noteq> Fail r ''stale_liveness''"
  by (simp_all add: validateCounterRelationship_def validateRateLimit_def Let_def
        validateOwnerTransition_def validateHistoryHash_def validateSequence_def
        validateSignature_def validateNonce_def split: option.splits prod.splits)

lemma validateCaps_reasons:
  "fst (validateCaps t d s n) \<noteq> Fail r ''invalid_liveness''"
  "fst (validateCaps t d s n) \<noteq> Fail r ''stale_liveness''"
  by (simp_all add: validateCaps_def Let_def split: option.splits prod.splits)

lemma validateSegment_skip_reasons:
  "fst (validateSegment cr d t s True cn ln) \<noteq> Fail r ''invalid_liveness'' \<and>
   fst (validateSegment cr d t s True cn ln) \<noteq> Fail r ''stale_liveness''"
proof -
  obtain r2 t' d' where v2: "validateCaps t d s cn = (r2, t', d')"
    by (cases "validateCaps t d s cn") auto
  have r2: "r2 \<noteq> Fail r ''invalid_liveness''" "r2 \<noteq> Fail r ''stale_liveness''"
    using validateCaps_reasons [of t d s cn r] v2 by simp_all
  show ?thesis
    unfolding validateSegment_def
    by (simp add: v2 r2 rule_reasons)
qed

text \<open>
  C10. \<^verbatim>\<open>commitAction\<close> validates with \<^verbatim>\<open>skipLivenessCheck: true\<close>, so whatever type,
  payload (with any liveness proof in it), clock readings and state it is called with, and
  whatever becomes of the append, its result is never a failure of rule 4: the reason is neither \<^verbatim>\<open>invalid_liveness\<close> nor
  \<^verbatim>\<open>stale_liveness\<close>.
\<close>

theorem commit_never_liveness_failure:
  "fst (commitAction cr type pl ref previousOwner now rnd caps_now txActive w)
     \<noteq> CommitFail ''invalid_liveness'' \<and>
   fst (commitAction cr type pl ref previousOwner now rnd caps_now txActive w)
     \<noteq> CommitFail ''stale_liveness''"
proof -
  have app: "fst (appendSTA cr txActive ref sta w1) \<noteq> CommitFail ''invalid_liveness'' \<and>
             fst (appendSTA cr txActive ref sta w1) \<noteq> CommitFail ''stale_liveness''" for sta w1
    by (simp add: appendSTA_def Let_def)
  show ?thesis
  proof (cases "db_open w")
    case False
    then show ?thesis by (simp add: commitAction_def)
  next
    case opened: True
    show ?thesis
    proof (cases "identity w")
      case None
      with opened show ?thesis by (simp add: commitAction_def)
    next
      case (Some idn)
      let ?seg = "createSegment (id_hid idn) (id_pubJwk idn) (getChainHead (db w))
                    (getChainLen (db w) + 1) type pl
                    (case previousOwner of None \<Rightarrow> None
                     | Some po \<Rightarrow> if po = [] then None else Some po) None None now rnd"
      show ?thesis
      proof (cases "signSegment cr ?seg (id_privateKey idn)")
        case None
        with opened Some show ?thesis by (simp add: commitAction_def Let_def)
      next
        case (Some signed)
        obtain v t' d' where vs: "validateSegment cr (db w) (capsTracker w) signed True caps_now now = (v, t', d')"
          by (cases "validateSegment cr (db w) (capsTracker w) signed True caps_now now") auto
        have "v \<noteq> Fail r ''invalid_liveness'' \<and> v \<noteq> Fail r ''stale_liveness''" for r
          using validateSegment_skip_reasons [of cr "db w" "capsTracker w" signed caps_now now r] vs
          by simp
        then show ?thesis
          using opened \<open>identity w = Some idn\<close> Some vs app
          by (cases v) (auto simp add: commitAction_def Let_def)
      qed
    qed
  qed
qed

subsection \<open>Capsule content hash\<close>

text \<open>
  C9, as stated, fails: the string that is hashed is \<^verbatim>\<open>JSON.stringify(content)\<close>, with
  the keys in the order of the object literal, and not the canonical encoding with sorted
  keys. For a two-message session the two strings differ, so the claimed equation does not
  hold for every hash function (it would need a collision of SHA-256).
\<close>

theorem capsule_hash_not_canonical:
  \<open>hashCapsuleContent_input example_messages example_analysis
     = Some ''{"messageTexts":"hi|yo","motivator":"greed","category":"wheat","richScore":85}'' \<and>
   map_option canonicalize (capsule_content example_messages example_analysis)
     = Some ''{"category":"wheat","messageTexts":"hi|yo","motivator":"greed","richScore":85}'' \<and>
   \<not> (\<forall>sha256. hashCapsuleContent sha256 example_messages example_analysis
                  = map_option (\<lambda>c. sha256 (canonicalize c))
                      (capsule_content example_messages example_analysis))\<close>
proof -
  have a: \<open>hashCapsuleContent_input example_messages example_analysis
     = Some ''{"messageTexts":"hi|yo","motivator":"greed","category":"wheat","richScore":85}''\<close>
    by code_simp
  have b: \<open>map_option canonicalize (capsule_content example_messages example_analysis)
     = Some ''{"category":"wheat","messageTexts":"hi|yo","motivator":"greed","richScore":85}''\<close>
    by code_simp
  have l: \<open>hashCapsuleContent id example_messages example_analysis
     = Some ''{"messageTexts":"hi|yo","motivator":"greed","category":"wheat","richScore":85}''\<close>
    using a by (simp add: hashCapsuleContent_def)
  have r: \<open>map_option (\<lambda>c. id (canonicalize c))
               (capsule_content example_messages example_analysis)
     = Some ''{"category":"wheat","messageTexts":"hi|yo","motivator":"greed","richScore":85}''\<close>
    using b by simp
  have "hashCapsuleContent id example_messages example_analysis
          \<noteq> map_option (\<lambda>c. id (canonicalize c))
               (capsule_content example_messages example_analysis)"
    unfolding l r by simp
  then show ?thesis using a b by blast
qed

text \<open>
  C9, amended. Whenever a hash is computed, it is the SHA-256 of the \<^verbatim>\<open>JSON.stringify\<close>
  encoding of the object: the members stand in the order messageTexts, motivator,
  category, richScore; messageTexts is the string of the messages' texts (the empty string
  for a falsy text) joined with \<^verbatim>\<open>|\<close>; each of the other three is the analysis's field
  encoded by \<^verbatim>\<open>JSON.stringify\<close>, whatever its type, and is left out when the field is
  \<^verbatim>\<open>undefined\<close>. No hash is computed (the call throws) exactly when a message or the
  analysis is \<^verbatim>\<open>null\<close> or \<^verbatim>\<open>undefined\<close>.
\<close>

theorem capsule_hash_is_stringify:
  "hashCapsuleContent sha256 msgs analysis =
     (if list_ex nullish msgs \<or> nullish analysis then None
      else Some (sha256
        (''{'' @ join '',''
           ([json_quote ''messageTexts'' @ '':'' @
               json_quote (array_join ''|''
                 (map (\<lambda>m. js_or (get_prop m ''text'') (JStr [])) msgs))]
            @ (case JSON_stringify (get_prop analysis ''motivator'') of
                 None \<Rightarrow> [] | Some t \<Rightarrow> [json_quote ''motivator'' @ '':'' @ t])
            @ (case JSON_stringify (get_prop analysis ''category'') of
                 None \<Rightarrow> [] | Some t \<Rightarrow> [json_quote ''category'' @ '':'' @ t])
            @ (case JSON_stringify (get_prop analysis ''richScore'') of
                 None \<Rightarrow> [] | Some t \<Rightarrow> [json_quote ''richScore'' @ '':'' @ t]))
         @ ''}'')))"
  by (simp add: hashCapsuleContent_def hashCapsuleContent_input_def capsule_content_def
        split: option.splits)

text \<open>
  The amended claim at a session with a full analysis, at one whose analysis has no
  motivator and no category, and at one with a \<^verbatim>\<open>null\<close> message.
\<close>

theorem capsule_hash_is_stringify_witness:
  \<open>hashCapsuleContent (sha256Hex example_crypto) example_messages example_analysis =
     Some ''sha256:{"messageTexts":"hi|yo","motivator":"greed","category":"wheat","richScore":85}'' \<and>
   hashCapsuleContent (sha256Hex example_crypto) example_messages (JObj [(''richScore'', JNum 85)]) =
     Some ''sha256:{"messageTexts":"hi|yo","richScore":85}'' \<and>
   hashCapsuleContent (sha256Hex example_crypto) [JNull] example_analysis = None\<close>
proof -
  note T = capsule_hash_is_stringify [of "sha256Hex example_crypto"]
  have a: \<open>hashCapsuleContent (sha256Hex example_crypto) example_messages example_analysis =
     Some ''sha256:{"messageTexts":"hi|yo","motivator":"greed","category":"wheat","richScore":85}''\<close>
    unfolding T [of example_messages example_analysis] by code_simp
  have b: \<open>hashCapsuleContent (sha256Hex example_crypto) example_messages
             (JObj [(''richScore'', JNum 85)]) =
     Some ''sha256:{"messageTexts":"hi|yo","richScore":85}''\<close>
    unfolding T [of example_messages "JObj [(''richScore'', JNum 85)]"] by code_simp
  have c: "hashCapsuleContent (sha256Hex example_crypto) [JNull] example_analysis = None"
    unfolding T [of "[JNull]" example_analysis] by code_simp
  from a b c show ?thesis by blast
qed

subsection \<open>Caps counters and the commit path\<close>


subsection \<open>The read-only latch and the commit path\<close>

text \<open>
  C2, at a concrete input: with the latch set in the meta store, \<^verbatim>\<open>commitAction\<close> of
  the state manager validates and appends as usual. With a transaction that stays
  active the commit succeeds with \<open>seq = 1\<close> and the segment, its nonce and the new
  chain length are written while the latch is still set.
\<close>

theorem commit_ignores_read_only_latch:
  "isReadOnlyMode (db latched_world) \<and>
   (case commitAction example_crypto CHAT_USER example_payload (CallerObject 0) None
           1700000000000 example_nonce 1700000000000 True latched_world of
      (res, w') \<Rightarrow>
        (case res of CommitOk sq h \<Rightarrow> sq = 1 | CommitFail r \<Rightarrow> False) \<and>
        isReadOnlyMode (db w') \<and>
        map seq (state_chain (db w')) = [1] \<and>
        map fst (sync_log (db w')) = [example_nonce] \<and>
        meta_chain_len (db w') = Some 1)"
  by code_simp

subsection \<open>The outcomes of a commit\<close>

text \<open>Reading the caps changes nothing in the database but the caps store.\<close>

lemma caps_frame [simp]:
  "getChainLen (d\<lparr>caps_store := cs\<rparr>) = getChainLen d"
  "getChainHead (d\<lparr>caps_store := cs\<rparr>) = getChainHead d"
  "getSTABySeq (d\<lparr>caps_store := cs\<rparr>) k = getSTABySeq d k"
  "nonceExists (d\<lparr>caps_store := cs\<rparr>) n = nonceExists d n"
  "add_conflict (d\<lparr>caps_store := cs\<rparr>) sta = add_conflict d sta"
  "isReadOnlyMode (d\<lparr>caps_store := cs\<rparr>) = isReadOnlyMode d"
  by (simp_all add: getChainLen_def getChainHead_def getSTABySeq_def nonceExists_def
        add_conflict_def isReadOnlyMode_def)

lemma getCurrentCaps_db:
  "\<exists>cs. snd (snd (getCurrentCaps c d h n)) = d\<lparr>caps_store := cs\<rparr>"
proof (cases "case c h of Some x \<Rightarrow> if needsReset x n then None else Some x | None \<Rightarrow> None")
  case (Some cached)
  then have "snd (snd (getCurrentCaps c d h n)) = d\<lparr>caps_store := caps_store d\<rparr>"
    by (simp add: getCurrentCaps_def)
  then show ?thesis by blast
next
  case None
  obtain caps reset where ar: "applyResets (loadCaps d h) n = (caps, reset)"
    by (cases "applyResets (loadCaps d h) n") auto
  show ?thesis
  proof (cases reset)
    case True
    with None ar have "snd (snd (getCurrentCaps c d h n)) = d\<lparr>caps_store := (caps_store d)(h \<mapsto> caps)\<rparr>"
      by (simp add: getCurrentCaps_def saveCaps_def)
    then show ?thesis by blast
  next
    case False
    with None ar have "snd (snd (getCurrentCaps c d h n)) = d\<lparr>caps_store := caps_store d\<rparr>"
      by (simp add: getCurrentCaps_def)
    then show ?thesis by blast
  qed
qed

lemma validateCaps_db:
  "\<exists>cs. snd (snd (validateCaps t d s n)) = d\<lparr>caps_store := cs\<rparr>"
proof (cases t)
  case None
  then have "snd (snd (validateCaps t d s n)) = d\<lparr>caps_store := caps_store d\<rparr>"
    by (simp add: validateCaps_def)
  then show ?thesis by blast
next
  case (Some cache)
  obtain i c' d' where g: "getCurrentCaps cache d (current_owner s) n = (i, c', d')"
    by (cases "getCurrentCaps cache d (current_owner s) n") auto
  from getCurrentCaps_db [of cache d "current_owner s" n] g
  obtain cs where "d' = d\<lparr>caps_store := cs\<rparr>" by auto
  with Some g have "snd (snd (validateCaps t d s n)) = d\<lparr>caps_store := cs\<rparr>"
    by (simp add: validateCaps_def)
  then show ?thesis by blast
qed

lemma validateSegment_db:
  "\<exists>cs. snd (snd (validateSegment cr d t s skip cn ln)) = d\<lparr>caps_store := cs\<rparr>"
proof -
  obtain r2 t' d' where v2: "validateCaps t d s cn = (r2, t', d')"
    by (cases "validateCaps t d s cn") auto
  from validateCaps_db [of t d s cn] v2 obtain cs where d': "d' = d\<lparr>caps_store := cs\<rparr>"
    by auto
  have same: "d = d\<lparr>caps_store := caps_store d\<rparr>" by simp
  have "snd (snd (validateSegment cr d t s skip cn ln)) = d
        \<or> snd (snd (validateSegment cr d t s skip cn ln)) = d'"
    by (simp add: validateSegment_def v2)
  with d' same show ?thesis by metis
qed

text \<open>What a passed validation has checked.\<close>

lemma validateSegment_pass:
  assumes "validateSegment cr d t s skip cn ln = (Pass, t', d')"
  shows "validateSegmentStructure s = None" and "validateSequence d' s = Pass"
    and "validateNonce d' s = Pass" and "validateHistoryHash d' s = Pass"
    and "validateRateLimit d' s = Pass" and "validateSignature cr s = Pass"
    and "fst (validateCaps t d s cn) = Pass"
proof -
  obtain r2 t2 d2 where v2: "validateCaps t d s cn = (r2, t2, d2)"
    by (cases "validateCaps t d s cn") auto
  from assms have a: "validateSegmentStructure s = None"
    by (auto simp add: validateSegment_def split: if_splits)
  from assms a have b: "validateCounterRelationship d s = Pass"
    by (auto simp add: validateSegment_def split: if_splits)
  from assms a b v2 have c: "r2 = Pass"
    by (auto simp add: validateSegment_def split: if_splits)
  from assms a b v2 c have d2: "d2 = d'"
    by (auto simp add: validateSegment_def split: if_splits)
  from assms a b v2 c d2 have rest:
    "validateRateLimit d' s = Pass \<and> validateHistoryHash d' s = Pass \<and>
     validateSequence d' s = Pass \<and> validateSignature cr s = Pass \<and> validateNonce d' s = Pass"
    by (simp add: validateSegment_def split: if_splits)
  show "validateSegmentStructure s = None" by (rule a)
  show "validateSequence d' s = Pass" using rest by simp
  show "validateNonce d' s = Pass" using rest by simp
  show "validateHistoryHash d' s = Pass" using rest by simp
  show "validateRateLimit d' s = Pass" using rest by simp
  show "validateSignature cr s = Pass" using rest by simp
  show "fst (validateCaps t d s cn) = Pass" using v2 c by simp
qed

text \<open>
  A commit ends in one of five ways: nothing is touched; the validator refuses and at
  most the caps store has changed; the transaction aborts on a constraint error; the
  callback resumes on an inactive transaction, which commits the three \<^verbatim>\<open>add\<close>
  requests without the meta update; or the segment is appended.
\<close>

lemma commitAction_cases:
  obtains
    (untouched) r where
      "commitAction cr type pl ref po now rnd cn tx w = (CommitFail r, w)"
  | (rejected) r cs t' where
      "commitAction cr type pl ref po now rnd cn tx w =
         (CommitFail r, w\<lparr>db := (db w)\<lparr>caps_store := cs\<rparr>, capsTracker := t'\<rparr>)"
  | (aborted) sta cs t' where
      "validateSegmentStructure sta = None"
      "seq sta = getChainLen (db w) + 1" "\<not> nonceExists (db w) (nonce sta)"
      "add_conflict (db w) sta"
      "commitAction cr type pl ref po now rnd cn tx w =
         (CommitFail ''append_error'',
          project_sta ref sta (w\<lparr>db := (db w)\<lparr>caps_store := cs\<rparr>, capsTracker := t'\<rparr>))"
  | (detached) sta cs t' where
      "\<not> tx" "\<not> add_conflict (db w) sta"
      "commitAction cr type pl ref po now rnd cn tx w =
         (CommitFail ''append_error'',
          (project_sta ref sta (w\<lparr>db := (db w)\<lparr>caps_store := cs\<rparr>, capsTracker := t'\<rparr>))
            \<lparr>db := add_writes sta ((db w)\<lparr>caps_store := cs\<rparr>)\<rparr>)"
  | (appended) sta sg cs t' idn where
      "tx" "identity w = Some idn"
      "subtle_sign cr (id_privateKey idn) (getSignableContent sta) = Some sg"
      "sta = (createSegment (id_hid idn) (id_pubJwk idn) (getChainHead (db w))
                (getChainLen (db w) + 1) type pl
                (case po of None \<Rightarrow> None | Some p \<Rightarrow> if p = [] then None else Some p)
                None None now rnd)\<lparr>signature := Some sg\<rparr>"
      "validateSegmentStructure sta = None"
      "\<not> nonceExists (db w) (nonce sta)"
      "\<not> add_conflict (db w) sta"
      "commitAction cr type pl ref po now rnd cn tx w =
         (CommitOk (seq sta) (sha256Hex cr (block_hash_input sta)),
          (project_sta ref sta (w\<lparr>db := (db w)\<lparr>caps_store := cs\<rparr>, capsTracker := t'\<rparr>))
            \<lparr>db := meta_writes (sha256Hex cr (block_hash_input sta)) sta
                     (add_writes sta ((db w)\<lparr>caps_store := cs\<rparr>))\<rparr>)"
proof (cases "db_open w")
  case False
  then have "commitAction cr type pl ref po now rnd cn tx w = (CommitFail ''not_initialized'', w)"
    by (simp add: commitAction_def)
  then show thesis by (rule untouched)
next
  case opened: True
  show thesis
  proof (cases "identity w")
    case None
    with opened have "commitAction cr type pl ref po now rnd cn tx w = (CommitFail ''no_identity'', w)"
      by (simp add: commitAction_def)
    then show thesis by (rule untouched)
  next
    case (Some idn)
    define seg where "seg = createSegment (id_hid idn) (id_pubJwk idn) (getChainHead (db w))
                (getChainLen (db w) + 1) type pl
                (case po of None \<Rightarrow> None | Some p \<Rightarrow> if p = [] then None else Some p)
                None None now rnd"
    show thesis
    proof (cases "subtle_sign cr (id_privateKey idn) (getSignableContent seg)")
      case None
      then have "signSegment cr seg (id_privateKey idn) = None"
        by (simp add: signSegment_def)
      with opened Some
      have "commitAction cr type pl ref po now rnd cn tx w = (CommitFail ''commit_error'', w)"
        by (simp add: commitAction_def Let_def seg_def)
      then show thesis by (rule untouched)
    next
      case sgn: (Some sg)
      define sta where "sta = seg\<lparr>signature := Some sg\<rparr>"
      have signed: "signSegment cr seg (id_privateKey idn) = Some sta"
        using sgn by (simp add: signSegment_def sta_def)
      obtain v t' d' where vs: "validateSegment cr (db w) (capsTracker w) sta True cn now = (v, t', d')"
        by (cases "validateSegment cr (db w) (capsTracker w) sta True cn now") auto
      from validateSegment_db [of cr "db w" "capsTracker w" sta True cn now] vs
      obtain cs where d': "d' = (db w)\<lparr>caps_store := cs\<rparr>" by auto
      have unfold: "commitAction cr type pl ref po now rnd cn tx w =
          (case v of Fail rule rsn \<Rightarrow> (CommitFail rsn, w\<lparr>db := d', capsTracker := t'\<rparr>)
           | Pass \<Rightarrow> appendSTA cr tx ref sta (w\<lparr>db := d', capsTracker := t'\<rparr>))"
        using opened Some signed vs by (simp add: commitAction_def Let_def seg_def)
      show thesis
      proof (cases v)
        case (Fail rule rsn)
        with unfold d' show thesis by (auto intro: rejected)
      next
        case Pass
        note p = validateSegment_pass [OF vs [unfolded Pass]]
        have st: "validateSegmentStructure sta = None" by (rule p(1))
        have sq: "seq sta = getChainLen (db w) + 1"
          by (simp add: sta_def seg_def createSegment_def)
        have nn: "\<not> nonceExists (db w) (nonce sta)"
          using p(3) d' by (simp add: validateNonce_def split: if_splits)
        show thesis
        proof (cases "add_conflict (db w) sta")
          case True
          with unfold Pass d' have "commitAction cr type pl ref po now rnd cn tx w =
             (CommitFail ''append_error'',
              project_sta ref sta (w\<lparr>db := (db w)\<lparr>caps_store := cs\<rparr>, capsTracker := t'\<rparr>))"
            by (simp add: appendSTA_def Let_def)
          with st sq nn True show thesis by (rule aborted)
        next
          case False
          show thesis
          proof (cases tx)
            case True
            with False unfold Pass d' have "commitAction cr type pl ref po now rnd cn tx w =
              (CommitOk (seq sta) (sha256Hex cr (block_hash_input sta)),
               (project_sta ref sta (w\<lparr>db := (db w)\<lparr>caps_store := cs\<rparr>, capsTracker := t'\<rparr>))
                 \<lparr>db := meta_writes (sha256Hex cr (block_hash_input sta)) sta
                          (add_writes sta ((db w)\<lparr>caps_store := cs\<rparr>))\<rparr>)"
              by (simp add: appendSTA_def Let_def)
            moreover have "segment_object sta = segment_object seg"
              by (simp add: sta_def segment_object_def)
            then have "subtle_sign cr (id_privateKey idn) (getSignableContent sta) = Some sg"
              using sgn by (simp only: getSignableContent_def)
            ultimately show thesis
              using True Some sta_def [unfolded seg_def] st nn False by (intro appended)
          next
            case inactive: False
            with False unfold Pass d' have "commitAction cr type pl ref po now rnd cn tx w =
              (CommitFail ''append_error'',
               (project_sta ref sta (w\<lparr>db := (db w)\<lparr>caps_store := cs\<rparr>, capsTracker := t'\<rparr>))
                 \<lparr>db := add_writes sta ((db w)\<lparr>caps_store := cs\<rparr>)\<rparr>)"
              by (simp add: appendSTA_def Let_def)
            with inactive False show thesis by (rule detached)
          qed
        qed
      qed
    qed
  qed
qed

text \<open>Projecting a segment leaves the database, the identity and the tracker alone.\<close>

lemma updateScores_steps:
  fixes s :: segment and w :: world
  defines "sc \<equiv> get_prop (payload s) ''scores''"
  defines "w1 \<equiv> (if truthy sc \<and> is_number (get_prop sc ''rich'')
                   then w\<lparr>richScore := number_of (get_prop sc ''rich'')\<rparr> else w)"
  defines "w2 \<equiv> (if truthy sc \<and> is_number (get_prop sc ''business'')
                   then w1\<lparr>businessScore := number_of (get_prop sc ''business'')\<rparr> else w1)"
  defines "w3 \<equiv> (if sta_type s = BIZ_DECISION \<and> get_prop (payload s) ''decision'' = JStr ''ACCEPT''
                   then w2\<lparr>richScore := min 100 (richScore w2 + 2)\<rparr> else w2)"
  defines "w4 \<equiv> (if sta_type s = BIZ_OUTCOME \<and> get_prop (payload s) ''outcome'' = JStr ''SUCCESS''
                   then w3\<lparr>richScore := min 100 (richScore w3 + 5),
                           businessScore := min 100 (businessScore w3 + 3)\<rparr> else w3)"
  shows "updateScores s w = w4"
  unfolding updateScores_def w4_def w3_def w2_def w1_def sc_def Let_def
  by (rule refl)

lemma updateScores_keeps:
  "\<exists>r b. updateScores s w = w\<lparr>richScore := r, businessScore := b\<rparr>"
proof -
  define sc where "sc = get_prop (payload s) ''scores''"
  define w1 where "w1 = (if truthy sc \<and> is_number (get_prop sc ''rich'')
                   then w\<lparr>richScore := number_of (get_prop sc ''rich'')\<rparr> else w)"
  define w2 where "w2 = (if truthy sc \<and> is_number (get_prop sc ''business'')
                   then w1\<lparr>businessScore := number_of (get_prop sc ''business'')\<rparr> else w1)"
  define w3 where "w3 = (if sta_type s = BIZ_DECISION \<and> get_prop (payload s) ''decision'' = JStr ''ACCEPT''
                   then w2\<lparr>richScore := min 100 (richScore w2 + 2)\<rparr> else w2)"
  define w4 where "w4 = (if sta_type s = BIZ_OUTCOME \<and> get_prop (payload s) ''outcome'' = JStr ''SUCCESS''
                   then w3\<lparr>richScore := min 100 (richScore w3 + 5),
                           businessScore := min 100 (businessScore w3 + 3)\<rparr> else w3)"
  have keep: "x = w\<lparr>richScore := richScore x, businessScore := businessScore x\<rparr>"
    if "db x = db w" "db_open x = db_open w" "identity x = identity w"
       "capsTracker x = capsTracker w" "messages x = messages w" for x
    using that by (cases x, cases w) simp
  have f1: "db w1 = db w \<and> db_open w1 = db_open w \<and> identity w1 = identity w \<and>
            capsTracker w1 = capsTracker w \<and> messages w1 = messages w"
    by (simp add: w1_def)
  have f2: "db w2 = db w \<and> db_open w2 = db_open w \<and> identity w2 = identity w \<and>
            capsTracker w2 = capsTracker w \<and> messages w2 = messages w"
    using f1 by (simp add: w2_def)
  have f3: "db w3 = db w \<and> db_open w3 = db_open w \<and> identity w3 = identity w \<and>
            capsTracker w3 = capsTracker w \<and> messages w3 = messages w"
    using f2 by (simp add: w3_def)
  have f4: "db w4 = db w \<and> db_open w4 = db_open w \<and> identity w4 = identity w \<and>
            capsTracker w4 = capsTracker w \<and> messages w4 = messages w"
    using f3 by (simp add: w4_def)
  have "updateScores s w = w4"
    unfolding w4_def w3_def w2_def w1_def sc_def by (rule updateScores_steps)
  with keep [of w4] f4 show ?thesis by metis
qed

lemma updateScores_frame [simp]:
  "db (updateScores s w) = db w"
  "capsTracker (updateScores s w) = capsTracker w"
  "identity (updateScores s w) = identity w"
  "db_open (updateScores s w) = db_open w"
  "messages (updateScores s w) = messages w"
proof -
  from updateScores_keeps [of s w] obtain r b
    where e: "updateScores s w = w\<lparr>richScore := r, businessScore := b\<rparr>" by blast
  show "db (updateScores s w) = db w" by (simp add: e)
  show "capsTracker (updateScores s w) = capsTracker w" by (simp add: e)
  show "identity (updateScores s w) = identity w" by (simp add: e)
  show "db_open (updateScores s w) = db_open w" by (simp add: e)
  show "messages (updateScores s w) = messages w" by (simp add: e)
qed

lemma addToMessagesProjection_frame [simp]:
  "db (addToMessagesProjection ref m w) = db w"
  "capsTracker (addToMessagesProjection ref m w) = capsTracker w"
  "identity (addToMessagesProjection ref m w) = identity w"
  "db_open (addToMessagesProjection ref m w) = db_open w"
  by (simp_all add: addToMessagesProjection_def Let_def)

lemma project_sta_frame [simp]:
  "db (project_sta ref s w) = db w"
  "capsTracker (project_sta ref s w) = capsTracker w"
  "identity (project_sta ref s w) = identity w"
  "db_open (project_sta ref s w) = db_open w"
  by (simp_all add: project_sta_def)

subsection \<open>Effects of a successful commit\<close>





text \<open>
  A failed commit leaves both meta keys as they were. The chain, the nonce log and the
  message store are as before too, except after the one failure in which the callback
  resumed on an inactive transaction: then the segment, its nonce and its message are
  stored although the result is \<^verbatim>\<open>append_error\<close>.
\<close>

lemma commit_failure_effects:
  fixes cr type pl ref po now rnd cn tx w
  defines "w' \<equiv> snd (commitAction cr type pl ref po now rnd cn tx w)"
  assumes "fst (commitAction cr type pl ref po now rnd cn tx w) = CommitFail r"
  shows "meta_chain_head (db w') = meta_chain_head (db w)"
    and "meta_chain_len (db w') = meta_chain_len (db w)"
    and "tx \<or> r \<noteq> ''append_error'' \<Longrightarrow>
           state_chain (db w') = state_chain (db w) \<and> sync_log (db w') = sync_log (db w) \<and>
           messages_store (db w') = messages_store (db w)"
proof -
  have "meta_chain_head (db w') = meta_chain_head (db w) \<and>
        meta_chain_len (db w') = meta_chain_len (db w) \<and>
        (tx \<or> r \<noteq> ''append_error'' \<longrightarrow>
           state_chain (db w') = state_chain (db w) \<and> sync_log (db w') = sync_log (db w) \<and>
           messages_store (db w') = messages_store (db w))"
  proof (cases rule: commitAction_cases [of cr type pl ref po now rnd cn tx w])
    case (untouched r')
    then show ?thesis by (simp add: w'_def)
  next
    case (rejected r' cs t')
    then show ?thesis by (simp add: w'_def)
  next
    case (aborted sta cs t')
    then show ?thesis by (simp add: w'_def)
  next
    case (detached sta cs t')
    with assms(2) show ?thesis by (simp add: w'_def add_writes_def)
  next
    case (appended sta sg cs t' idn)
    with assms(2) show ?thesis by simp
  qed
  then show "meta_chain_head (db w') = meta_chain_head (db w)"
    and "meta_chain_len (db w') = meta_chain_len (db w)"
    and "tx \<or> r \<noteq> ''append_error'' \<Longrightarrow>
           state_chain (db w') = state_chain (db w) \<and> sync_log (db w') = sync_log (db w) \<and>
           messages_store (db w') = messages_store (db w)"
    by simp_all
qed


subsection \<open>Rebuilt projections\<close>

text \<open>
  C8, at a concrete input. A message that carries scores is committed on a fresh chain,
  and the callback of the append resumes after the hash on a transaction that is no
  longer active. The commit fails with \<^verbatim>\<open>append_error\<close>, but the in-memory views were
  updated before the await and nothing takes the update back: the message is in the list
  of its chat and the scores are 80 and 75. Replaying the store gives no message and the
  scores 0 and 0, since the stored chain length is still 0 (the segment itself is in the
  chain store). When the transaction stays active, the same commit succeeds and the
  rebuilt views are the incremental ones.
\<close>

theorem failed_append_leaves_views_ahead:
  "(case commitAction example_crypto CHAT_USER scored_payload (CallerObject 0) None
           1700000000000 example_nonce 1700000000000 False example_world of
      (res, w') \<Rightarrow>
        res = CommitFail ''append_error'' \<and>
        map m_id (case messages w' (KeyValue (JStr ''hakim'')) of None \<Rightarrow> [] | Some ms \<Rightarrow> ms)
          = [''1:000102030405060708090a0b0c0d0e0f''] \<and>
        richScore w' = 80 \<and> businessScore w' = 75 \<and>
        messages (rebuildProjections w') (KeyValue (JStr ''hakim'')) = None \<and>
        richScore (rebuildProjections w') = 0 \<and> businessScore (rebuildProjections w') = 0 \<and>
        map seq (state_chain (db w')) = [1] \<and> meta_chain_len (db w') = None) \<and>
   (case commitAction example_crypto CHAT_USER scored_payload (CallerObject 0) None
           1700000000000 example_nonce 1700000000000 True example_world of
      (res, w') \<Rightarrow>
        (case res of CommitOk sq h \<Rightarrow> sq = 1 | CommitFail r \<Rightarrow> False) \<and>
        map m_id (case messages w' (KeyValue (JStr ''hakim'')) of None \<Rightarrow> [] | Some ms \<Rightarrow> ms)
          = [''1:000102030405060708090a0b0c0d0e0f''] \<and>
        richScore w' = 80 \<and> businessScore w' = 75 \<and>
        messages (rebuildProjections w') (KeyValue (JStr ''hakim''))
          = messages w' (KeyValue (JStr ''hakim'')) \<and>
        richScore (rebuildProjections w') = 80 \<and> businessScore (rebuildProjections w') = 75)"
  by code_simp

subsection \<open>Caps counters\<close>

text \<open>The reset times computed from the clock lie after it.\<close>

lemma year_search_upper: "d < DayFromYear (year_search d y + 1)"
proof (induction d y rule: year_search.induct)
  case (1 d y)
  show ?case
  proof (cases "DayFromYear (y + 1) \<le> d")
    case True
    with 1 show ?thesis by (simp add: year_search.simps [of d y])
  next
    case False
    then show ?thesis by (simp add: year_search.simps [of d y])
  qed
qed

lemma Day_less: "Day t < k \<Longrightarrow> t < k * msPerDay"
proof -
  assume a: "Day t < k"
  have "t = Day t * msPerDay + t mod msPerDay"
    by (simp add: Day_def)
  moreover have "t mod msPerDay < msPerDay"
    by (simp add: msPerDay_def)
  moreover from a have "Day t + 1 \<le> k" by simp
  then have "(Day t + 1) * msPerDay \<le> k * msPerDay"
    by (simp add: msPerDay_def)
  ultimately show ?thesis by (simp add: algebra_simps)
qed

lemma Day_MakeDate: "Day (MakeDate k (TimeWithinDay t)) = k"
  by (simp add: Day_def MakeDate_def TimeWithinDay_def msPerDay_def)

lemma getNextDailyReset_eq: "getNextDailyReset now = (Day now + 1) * msPerDay"
  by (simp add: getNextDailyReset_def setUTCHours_def MakeDate_def msPerDay_def algebra_simps)

lemma getNextYearlyReset_eq:
  "getNextYearlyReset now = DayFromYear (YearFromTime now + 1) * msPerDay"
  by (simp add: getNextYearlyReset_def setUTCHours_def setUTCFullYear_def Day_MakeDate)
     (simp add: MakeDate_def MakeDay_def month_start_def Let_def)

lemma getNextMonthlyReset_eq:
  "getNextMonthlyReset now = MakeDay (YearFromTime now) (MonthFromTime now + 1) 1 * msPerDay"
  by (simp add: getNextMonthlyReset_def setUTCHours_def setUTCMonth_def Day_MakeDate)
     (simp add: MakeDate_def)

lemma daily_after: "now < getNextDailyReset now"
  unfolding getNextDailyReset_eq by (rule Day_less) simp

lemma daily_boundary:
  "getNextDailyReset now mod msPerDay = 0 \<and> getNextDailyReset now \<le> now + msPerDay"
proof -
  have "now = Day now * msPerDay + now mod msPerDay" by (simp add: Day_def)
  moreover have "0 \<le> now mod msPerDay" by (simp add: msPerDay_def)
  ultimately have "(Day now + 1) * msPerDay \<le> now + msPerDay"
    by (simp add: algebra_simps)
  then show ?thesis by (simp add: getNextDailyReset_eq)
qed

lemma yearly_after: "now < getNextYearlyReset now"
  unfolding getNextYearlyReset_eq
  by (rule Day_less) (simp add: YearFromTime_def YearFromDay_def year_search_upper)

lemma month_cases:
  "MonthFromTime t = 11 \<or>
   (0 \<le> MonthFromTime t \<and> MonthFromTime t \<le> 10 \<and>
    DayWithinYear t < month_start (MonthFromTime t + 1) (InLeapYear (YearFromTime t)))"
  unfolding MonthFromTime_def Let_def by simp

lemma monthly_after: "now < getNextMonthlyReset now"
proof -
  let ?y = "YearFromTime now" and ?m = "MonthFromTime now"
  have "Day now < MakeDay ?y (?m + 1) 1"
  proof (cases "?m = 11")
    case True
    have "Day now < DayFromYear (?y + 1)"
      by (simp add: YearFromTime_def YearFromDay_def year_search_upper)
    with True show ?thesis by (simp add: MakeDay_def month_start_def Let_def)
  next
    case False
    with month_cases [of now] have m: "0 \<le> ?m" "?m \<le> 10"
      and d: "DayWithinYear now < month_start (?m + 1) (InLeapYear ?y)"
      by simp_all
    from m have "(?m + 1) div 12 = 0" "(?m + 1) mod 12 = ?m + 1" by simp_all
    then have "MakeDay ?y (?m + 1) 1 = DayFromYear ?y + month_start (?m + 1) (InLeapYear ?y)"
      by (simp add: MakeDay_def Let_def)
    with d show ?thesis by (simp add: DayWithinYear_def)
  qed
  then show ?thesis unfolding getNextMonthlyReset_eq by (rule Day_less)
qed

text \<open>
  The year found by the search is the one the definition of YearFromTime asks for: its
  first day is not after the day of \<open>t\<close>, and the first day of the next year is. The
  month found begins on or before the day of \<open>t\<close>. So every \<open>t\<close> lies between the
  beginning of its month (of its year) and the next monthly (yearly) reset.
\<close>

lemma year_search_lower: "DayFromYear y \<le> d \<Longrightarrow> DayFromYear (year_search d y) \<le> d"
proof (induction d y rule: year_search.induct)
  case (1 d y)
  show ?case
  proof (cases "DayFromYear (y + 1) \<le> d")
    case True
    with 1 show ?thesis by (simp add: year_search.simps [of d y])
  next
    case False
    with 1 show ?thesis by (simp add: year_search.simps [of d y])
  qed
qed

lemma year_estimate_lower:
  assumes "0 \<le> d"
  shows "DayFromYear (1970 + d div 366) \<le> d"
proof -
  define k where "k = d div 366"
  from assms have k: "0 \<le> k" by (simp add: k_def)
  have "k * 366 \<le> d"
    using assms unfolding k_def by (simp add: minus_mod_eq_div_mult [symmetric])
  have p: "(k + 1) div 4 \<le> k"
  proof -
    have "(k + 1) div 4 \<le> (4 * k + 3) div 4"
      using k by (intro zdiv_mono1) simp_all
    also have "\<dots> = k" by simp
    finally show ?thesis .
  qed
  have q: "(k + 369) div 400 \<le> (k + 69) div 100"
  proof (cases "k < 31")
    case True
    with k have "(k + 369) div 400 = 0" by simp
    moreover from k have "0 \<le> (k + 69) div 100" by simp
    ultimately show ?thesis by simp
  next
    case False
    then have "(k + 369) div 400 \<le> ((k + 69) * 4) div 400"
      by (intro zdiv_mono1) simp_all
    also have "((k + 69) * 4) div 400 = ((k + 69) * 4) div (100 * 4)" by simp
    also have "\<dots> = (k + 69) div 100" by (rule div_mult_mult2) simp
    finally show ?thesis .
  qed
  have lin: "a \<le> k \<Longrightarrow> c \<le> b \<Longrightarrow> k * 366 \<le> d \<Longrightarrow> 365 * k + a - b + c \<le> d" for a b c :: int
    by simp
  have "DayFromYear (1970 + k) = 365 * k + (k + 1) div 4 - (k + 69) div 100 + (k + 369) div 400"
    by (simp add: DayFromYear_def add.commute)
  also have "\<dots> \<le> d" using p q \<open>k * 366 \<le> d\<close> by (rule lin)
  finally show ?thesis by (simp add: k_def)
qed

lemma year_estimate_lower_negative:
  assumes "d < 0"
  shows "DayFromYear (1970 + d div 365) \<le> d"
proof -
  define j where "j = d div 365"
  define a where "a = (j + 1) div 4"
  define b where "b = (j + 69) div 100"
  define c where "c = (j + 369) div 400"
  from assms have j: "j \<le> - 1" by (simp add: j_def neg_imp_zdiv_neg_iff)
  have le: "j * 365 \<le> d"
    unfolding j_def by (simp add: minus_mod_eq_div_mult [symmetric])
  have fa: "a * 4 \<le> j + 1"
    unfolding a_def by (simp add: minus_mod_eq_div_mult [symmetric])
  have "j + 69 = b * 100 + (j + 69) mod 100"
    unfolding b_def by simp
  moreover have "(j + 69) mod 100 < 100" by simp
  ultimately have fb: "j + 69 < b * 100 + 100" by linarith
  have fc: "c * 400 \<le> j + 369"
    unfolding c_def by (simp add: minus_mod_eq_div_mult [symmetric])
  have leap: "a - b + c \<le> 0"
  proof (cases "- 69 \<le> j")
    case True
    from fa j have "a \<le> 0" by linarith
    moreover from fb True have "0 \<le> b" by linarith
    moreover from fc j have "c \<le> 0" by linarith
    ultimately show ?thesis by linarith
  next
    case False
    with fa fb fc show ?thesis by linarith
  qed
  have "DayFromYear (1970 + j) = 365 * j + a - b + c"
    by (simp add: DayFromYear_def a_def b_def c_def add.commute)
  also have "\<dots> \<le> d" using leap le by linarith
  finally show ?thesis by (simp add: j_def)
qed

lemma year_interval:
  "DayFromYear (YearFromTime t) \<le> Day t \<and> Day t < DayFromYear (YearFromTime t + 1)"
proof -
  have "DayFromYear (1970 + (if 0 \<le> Day t then Day t div 366 else Day t div 365)) \<le> Day t"
    by (simp add: year_estimate_lower year_estimate_lower_negative)
  then have "DayFromYear (YearFromTime t) \<le> Day t"
    unfolding YearFromTime_def YearFromDay_def by (rule year_search_lower)
  moreover have "Day t < DayFromYear (YearFromTime t + 1)"
    by (simp add: YearFromTime_def YearFromDay_def year_search_upper)
  ultimately show ?thesis by (rule conjI)
qed

lemma month_range: "0 \<le> MonthFromTime t \<and> MonthFromTime t \<le> 11"
  unfolding MonthFromTime_def Let_def by simp

lemma month_lower:
  assumes "0 \<le> DayWithinYear t"
  shows "month_start (MonthFromTime t) (InLeapYear (YearFromTime t)) \<le> DayWithinYear t"
  using assms unfolding MonthFromTime_def Let_def
  by (simp add: month_start_def)

lemma Day_ge: "k \<le> Day t \<Longrightarrow> k * msPerDay \<le> t"
proof -
  assume "k \<le> Day t"
  then have "k * msPerDay \<le> Day t * msPerDay" by (simp add: msPerDay_def)
  also have "\<dots> \<le> t"
    by (simp add: Day_def msPerDay_def minus_mod_eq_div_mult [symmetric])
  finally show ?thesis .
qed

lemma month_begin_le: "MakeDay (YearFromTime t) (MonthFromTime t) 1 * msPerDay \<le> t"
proof -
  let ?y = "YearFromTime t" and ?m = "MonthFromTime t"
  from year_interval [of t] have dwy: "0 \<le> DayWithinYear t"
    by (simp add: DayWithinYear_def)
  from month_range [of t] have "?m div 12 = 0" "?m mod 12 = ?m" by simp_all
  then have "MakeDay ?y ?m 1 = DayFromYear ?y + month_start ?m (InLeapYear ?y)"
    by (simp add: MakeDay_def Let_def)
  also have "\<dots> \<le> Day t"
    using month_lower [OF dwy] by (simp add: DayWithinYear_def)
  finally show ?thesis by (rule Day_ge)
qed

lemma year_begin_le: "DayFromYear (YearFromTime t) * msPerDay \<le> t"
  using year_interval [of t] by (simp add: Day_ge)

text \<open>Resets, reads and increments in terms of the stored record.\<close>

lemma applyResets_fields:
  "daily (fst (applyResets c now)) = (if dailyReset c \<le> now then 0 else daily c)"
  "monthly (fst (applyResets c now)) = (if monthlyReset c \<le> now then 0 else monthly c)"
  "yearly (fst (applyResets c now)) = (if yearlyReset c \<le> now then 0 else yearly c)"
  "total_count (fst (applyResets c now)) = total_count c"
  "dailyReset (fst (applyResets c now)) =
     (if dailyReset c \<le> now then getNextDailyReset now else dailyReset c)"
  "monthlyReset (fst (applyResets c now)) =
     (if monthlyReset c \<le> now then getNextMonthlyReset now else monthlyReset c)"
  "yearlyReset (fst (applyResets c now)) =
     (if yearlyReset c \<le> now then getNextYearlyReset now else yearlyReset c)"
  by (simp_all add: applyResets_def Let_def split: prod.splits)

lemma applyResets_flag: "snd (applyResets c now) = needsReset c now"
  by (auto simp add: applyResets_def needsReset_def Let_def split: prod.splits)

lemma applyResets_idle: "\<not> needsReset c now \<Longrightarrow> fst (applyResets c now) = c"
  by (simp add: applyResets_def needsReset_def Let_def)

lemma applyResets_within: "within_caps c \<Longrightarrow> within_caps (fst (applyResets c now))"
  by (simp add: within_caps_def applyResets_fields)

lemma loadCaps_saveCaps: "loadCaps (saveCaps d h c) = (loadCaps d)(h := c)"
  by (rule ext) (simp add: loadCaps_def saveCaps_def)

lemma loadCaps_same: "(loadCaps d)(h := loadCaps d h) = loadCaps d"
  by simp

lemma formatCaps_fields [simp]:
  "i_daily (formatCaps c) = daily c" "i_monthly (formatCaps c) = monthly c"
  "i_yearly (formatCaps c) = yearly c" "i_total (formatCaps c) = total_count c"
  by (simp_all add: formatCaps_def)

lemma getCurrentCaps_char:
  fixes cache :: caps_cache and d :: database and h :: string and now :: int
  assumes inv: "caps_inv (cache, d)"
  defines "caps \<equiv> fst (applyResets (loadCaps d h) now)"
  shows "fst (getCurrentCaps cache d h now) = formatCaps caps"
    and "fst (snd (getCurrentCaps cache d h now)) = cache(h \<mapsto> caps)"
    and "loadCaps (snd (snd (getCurrentCaps cache d h now))) = (loadCaps d)(h := caps)"
proof -
  from inv have "case cache h of None \<Rightarrow> True | Some c \<Rightarrow> c = loadCaps d h"
    unfolding caps_inv_def fst_conv snd_conv by blast
  then have cons: "cache h = None \<or> cache h = Some (loadCaps d h)"
    by (cases "cache h") simp_all
  obtain c' r where ar: "applyResets (loadCaps d h) now = (c', r)"
    by (cases "applyResets (loadCaps d h) now") auto
  have c': "c' = caps" using ar by (simp add: caps_def)
  have r: "r = needsReset (loadCaps d h) now"
    using ar applyResets_flag [of "loadCaps d h" now] by simp
  show "fst (getCurrentCaps cache d h now) = formatCaps caps"
    and "fst (snd (getCurrentCaps cache d h now)) = cache(h \<mapsto> caps)"
    and "loadCaps (snd (snd (getCurrentCaps cache d h now))) = (loadCaps d)(h := caps)"
  proof -
    consider (hit) "cache h = Some (loadCaps d h)" "\<not> needsReset (loadCaps d h) now"
      | (miss) "cache h = None \<or> needsReset (loadCaps d h) now"
      using cons by blast
    then have "fst (getCurrentCaps cache d h now) = formatCaps caps \<and>
        fst (snd (getCurrentCaps cache d h now)) = cache(h \<mapsto> caps) \<and>
        loadCaps (snd (snd (getCurrentCaps cache d h now))) = (loadCaps d)(h := caps)"
    proof cases
      case hit
      then have same: "caps = loadCaps d h"
        by (simp add: caps_def applyResets_idle)
      from hit have "getCurrentCaps cache d h now = (formatCaps (loadCaps d h), cache, d)"
        by (simp add: getCurrentCaps_def)
      with hit(1) same show ?thesis by (simp add: fun_upd_idem)
    next
      case miss
      with cons have sel: "(case cache h of Some c \<Rightarrow> if needsReset c now then None else Some c
                                | None \<Rightarrow> None) = None"
        by auto
      have g: "getCurrentCaps cache d h now =
                 (formatCaps caps, cache(h \<mapsto> caps), if r then saveCaps d h caps else d)"
        by (simp add: getCurrentCaps_def sel ar c')
      show ?thesis
      proof (cases r)
        case True
        with g show ?thesis by (simp add: loadCaps_saveCaps)
      next
        case False
        with r have "caps = loadCaps d h" by (simp add: caps_def applyResets_idle)
        with g False show ?thesis by simp
      qed
    qed
    then show "fst (getCurrentCaps cache d h now) = formatCaps caps"
      and "fst (snd (getCurrentCaps cache d h now)) = cache(h \<mapsto> caps)"
      and "loadCaps (snd (snd (getCurrentCaps cache d h now))) = (loadCaps d)(h := caps)"
      by simp_all
  qed
qed

lemma caps_inv_update:
  assumes "caps_inv (cache, d)" and "within_caps c" and "loadCaps d' = (loadCaps d)(h := c)"
  shows "caps_inv (cache(h \<mapsto> c), d')"
  using assms unfolding caps_inv_def fst_conv snd_conv
  by (auto split: option.splits)

lemma getCurrentCaps_inv:
  assumes inv: "caps_inv (cache, d)"
  shows "caps_inv (snd (getCurrentCaps cache d h now))"
    and "info_within_caps (fst (getCurrentCaps cache d h now))"
proof -
  let ?caps = "fst (applyResets (loadCaps d h) now)"
  from inv have "within_caps (loadCaps d h)"
    unfolding caps_inv_def fst_conv snd_conv by blast
  then have w: "within_caps ?caps" by (rule applyResets_within)
  note ch = getCurrentCaps_char [OF inv, of h now]
  have "caps_inv (fst (snd (getCurrentCaps cache d h now)), snd (snd (getCurrentCaps cache d h now)))"
    unfolding ch(2) by (rule caps_inv_update [OF inv w ch(3)])
  then show "caps_inv (snd (getCurrentCaps cache d h now))" by simp
  show "info_within_caps (fst (getCurrentCaps cache d h now))"
    using w by (simp add: ch(1) info_within_caps_def within_caps_def)
qed

lemma incrementCaps_char:
  fixes cache :: caps_cache and d :: database and h :: string and now amount :: int
  assumes inv: "caps_inv (cache, d)"
  defines "g \<equiv> getCurrentCaps cache d h now"
  defines "caps \<equiv> fst (applyResets (loadCaps d h) now)"
  shows "(if daily caps + amount > 3600 \<or> monthly caps + amount > 36000 \<or>
             yearly caps + amount > 120000
          then (\<exists>rsn. fst (incrementCaps cache d h amount now) = IncrFail rsn (formatCaps caps)) \<and>
               snd (incrementCaps cache d h amount now) = snd g
          else incrementCaps cache d h amount now =
                 (IncrOk (formatCaps (caps\<lparr>daily := daily caps + amount,
                            monthly := monthly caps + amount, yearly := yearly caps + amount,
                            total_count := total_count caps + amount\<rparr>)),
                  (fst (snd g))(h \<mapsto> caps\<lparr>daily := daily caps + amount,
                            monthly := monthly caps + amount, yearly := yearly caps + amount,
                            total_count := total_count caps + amount\<rparr>),
                  saveCaps (snd (snd g)) h (caps\<lparr>daily := daily caps + amount,
                            monthly := monthly caps + amount, yearly := yearly caps + amount,
                            total_count := total_count caps + amount\<rparr>)))"
proof -
  note ch = getCurrentCaps_char [OF inv, of h now]
  obtain i c1 d1 where gc: "getCurrentCaps cache d h now = (i, c1, d1)"
    by (cases "getCurrentCaps cache d h now") auto
  from ch gc have i: "i = formatCaps caps" and c1: "c1 = cache(h \<mapsto> caps)"
    by (simp_all add: caps_def)
  have rec0: "(case c1 h of Some r \<Rightarrow> r | None \<Rightarrow> loadCaps d1 h) = caps"
    by (simp add: c1)
  show ?thesis
    unfolding incrementCaps_def g_def gc
    by (simp add: rec0 Let_def DAILY_CAP_def MONTHLY_CAP_def YEARLY_CAP_def i c1)
qed

lemma incrementCaps_inv:
  assumes inv: "caps_inv (cache, d)"
  shows "caps_inv (snd (incrementCaps cache d h amount now))"
proof -
  let ?g = "getCurrentCaps cache d h now"
  let ?caps = "fst (applyResets (loadCaps d h) now)"
  let ?rec = "?caps\<lparr>daily := daily ?caps + amount, monthly := monthly ?caps + amount,
                    yearly := yearly ?caps + amount, total_count := total_count ?caps + amount\<rparr>"
  note ch = incrementCaps_char [OF inv, where h = h and amount = amount and now = now]
  note gi = getCurrentCaps_inv(1) [OF inv, of h now]
  show ?thesis
  proof (cases "daily ?caps + amount > 3600 \<or> monthly ?caps + amount > 36000 \<or>
             yearly ?caps + amount > 120000")
    case True
    with ch have "snd (incrementCaps cache d h amount now) = snd ?g" by simp
    with gi show ?thesis by simp
  next
    case False
    with ch have e: "snd (incrementCaps cache d h amount now) =
        ((fst (snd ?g))(h \<mapsto> ?rec), saveCaps (snd (snd ?g)) h ?rec)"
      by simp
    from False have w: "within_caps ?rec" by (simp add: within_caps_def)
    have gi': "caps_inv (fst (snd ?g), snd (snd ?g))" using gi by simp
    have "caps_inv ((fst (snd ?g))(h \<mapsto> ?rec), saveCaps (snd (snd ?g)) h ?rec)"
      by (rule caps_inv_update [OF gi' w]) (simp add: loadCaps_saveCaps)
    with e show ?thesis by simp
  qed
qed

lemma caps_step_inv: "caps_inv st \<Longrightarrow> caps_inv (caps_step st op)"
proof (cases st)
  case (Pair cache d)
  assume "caps_inv st"
  with Pair have inv: "caps_inv (cache, d)" by simp
  show ?thesis
  proof (cases op)
    case (GetCurrentCaps h now)
    with Pair getCurrentCaps_inv(1) [OF inv] show ?thesis by simp
  next
    case (IncrementCaps h a now)
    with Pair incrementCaps_inv [OF inv] show ?thesis by simp
  next
    case ClearCache
    with Pair inv show ?thesis
      unfolding caps_inv_def by (simp add: clearCache_def)
  qed
qed

lemma run_caps_inv: "caps_inv st \<Longrightarrow> caps_inv (run_caps ops st)"
  unfolding run_caps_def
  by (induction ops arbitrary: st) (simp_all add: caps_step_inv)

text \<open>
  C7. Start from a tracker state in which every stored counter is within its cap and the
  cache agrees with the store (an empty store with an empty cache is one), and run any
  sequence of reads, increments and cache clearings, for any identities and clock
  readings. In the state reached: every identity's stored counters satisfy
  \<open>daily \<le> 3600\<close>, \<open>monthly \<le> 36000\<close>, \<open>yearly \<le> 120000\<close>, and so do the counters
  every read returns; an increment that would take a counter above its cap is refused and
  changes nothing beyond the read it starts with, and the counters after any increment
  are within the caps; and when the stored daily (monthly, yearly) reset time has been
  reached, the read returns 0 for that counter and stores the next reset time, which is
  \<^verbatim>\<open>getNextDailyReset(now)\<close> (\<^verbatim>\<open>getNextMonthlyReset\<close>, \<^verbatim>\<open>getNextYearlyReset\<close>) and
  lies after \<open>now\<close>. The daily one is the next multiple of 86,400,000 ms, that is the
  next UTC midnight. The monthly one is 00:00 UTC on day 1 of the month after the month
  of \<open>now\<close>, and the yearly one is 00:00 UTC on 1 January of the year after the year of
  \<open>now\<close>, where the month (the year) of \<open>now\<close> is the one that has begun at \<open>now\<close> and
  whose successor has not.
\<close>

theorem caps_bounded_and_reset:
  fixes st0 :: "caps_cache \<times> database" and ops :: "caps_op list"
  assumes inv0: "caps_inv st0"
  defines "cache \<equiv> fst (run_caps ops st0)" and "d \<equiv> snd (run_caps ops st0)"
  shows
    "(\<forall>h. within_caps (loadCaps d h)) \<and>
     (\<forall>h now. info_within_caps (fst (getCurrentCaps cache d h now))) \<and>
     (\<forall>h amount now.
        3600 < i_daily (fst (getCurrentCaps cache d h now)) + amount \<or>
        36000 < i_monthly (fst (getCurrentCaps cache d h now)) + amount \<or>
        120000 < i_yearly (fst (getCurrentCaps cache d h now)) + amount \<longrightarrow>
          (\<exists>rsn. fst (incrementCaps cache d h amount now)
                    = IncrFail rsn (fst (getCurrentCaps cache d h now))) \<and>
          snd (incrementCaps cache d h amount now) = snd (getCurrentCaps cache d h now)) \<and>
     (\<forall>h amount now. within_caps (loadCaps (snd (snd (incrementCaps cache d h amount now))) h)) \<and>
     (\<forall>h now. dailyReset (loadCaps d h) \<le> now \<longrightarrow>
        i_daily (fst (getCurrentCaps cache d h now)) = 0 \<and>
        dailyReset (loadCaps (snd (snd (getCurrentCaps cache d h now))) h) = getNextDailyReset now \<and>
        now < getNextDailyReset now \<and> getNextDailyReset now mod 86400000 = 0 \<and>
        getNextDailyReset now \<le> now + 86400000) \<and>
     (\<forall>h now. monthlyReset (loadCaps d h) \<le> now \<longrightarrow>
        i_monthly (fst (getCurrentCaps cache d h now)) = 0 \<and>
        monthlyReset (loadCaps (snd (snd (getCurrentCaps cache d h now))) h) = getNextMonthlyReset now \<and>
        now < getNextMonthlyReset now \<and>
        getNextMonthlyReset now
          = MakeDay (YearFromTime now) (MonthFromTime now + 1) 1 * 86400000 \<and>
        MakeDay (YearFromTime now) (MonthFromTime now) 1 * 86400000 \<le> now \<and>
        0 \<le> MonthFromTime now \<and> MonthFromTime now \<le> 11) \<and>
     (\<forall>h now. yearlyReset (loadCaps d h) \<le> now \<longrightarrow>
        i_yearly (fst (getCurrentCaps cache d h now)) = 0 \<and>
        yearlyReset (loadCaps (snd (snd (getCurrentCaps cache d h now))) h) = getNextYearlyReset now \<and>
        now < getNextYearlyReset now \<and>
        getNextYearlyReset now = DayFromYear (YearFromTime now + 1) * 86400000 \<and>
        DayFromYear (YearFromTime now) * 86400000 \<le> now)"
proof -
  have inv: "caps_inv (cache, d)"
    using run_caps_inv [OF inv0, of ops] by (simp add: cache_def d_def)
  have bound: "within_caps (loadCaps d h)" for h
    using inv unfolding caps_inv_def fst_conv snd_conv by blast
  have reads: "info_within_caps (fst (getCurrentCaps cache d h now))" for h now
    by (rule getCurrentCaps_inv(2) [OF inv])
  have refuse:
     "(\<exists>rsn. fst (incrementCaps cache d h amount now)
                    = IncrFail rsn (fst (getCurrentCaps cache d h now))) \<and>
          snd (incrementCaps cache d h amount now) = snd (getCurrentCaps cache d h now)"
    if "3600 < i_daily (fst (getCurrentCaps cache d h now)) + amount \<or>
        36000 < i_monthly (fst (getCurrentCaps cache d h now)) + amount \<or>
        120000 < i_yearly (fst (getCurrentCaps cache d h now)) + amount" for h amount now
    using that incrementCaps_char [OF inv, where h = h and amount = amount and now = now]
    by (simp add: getCurrentCaps_char(1) [OF inv])
  have after: "within_caps (loadCaps (snd (snd (incrementCaps cache d h amount now))) h)"
    for h amount now
  proof -
    have "caps_inv (fst (snd (incrementCaps cache d h amount now)),
                    snd (snd (incrementCaps cache d h amount now)))"
      using incrementCaps_inv [OF inv, of h amount now] by simp
    then show ?thesis unfolding caps_inv_def fst_conv snd_conv by blast
  qed
  have day: "i_daily (fst (getCurrentCaps cache d h now)) = 0 \<and>
        dailyReset (loadCaps (snd (snd (getCurrentCaps cache d h now))) h) = getNextDailyReset now \<and>
        now < getNextDailyReset now \<and> getNextDailyReset now mod 86400000 = 0 \<and>
        getNextDailyReset now \<le> now + 86400000"
    if "dailyReset (loadCaps d h) \<le> now" for h now
    using that daily_after [of now] daily_boundary [of now]
    by (simp add: getCurrentCaps_char [OF inv] applyResets_fields msPerDay_def)
  have month: "i_monthly (fst (getCurrentCaps cache d h now)) = 0 \<and>
        monthlyReset (loadCaps (snd (snd (getCurrentCaps cache d h now))) h) = getNextMonthlyReset now \<and>
        now < getNextMonthlyReset now \<and>
        getNextMonthlyReset now
          = MakeDay (YearFromTime now) (MonthFromTime now + 1) 1 * 86400000 \<and>
        MakeDay (YearFromTime now) (MonthFromTime now) 1 * 86400000 \<le> now \<and>
        0 \<le> MonthFromTime now \<and> MonthFromTime now \<le> 11"
    if "monthlyReset (loadCaps d h) \<le> now" for h now
    using that monthly_after [of now] getNextMonthlyReset_eq [of now] month_begin_le [of now]
      month_range [of now]
    by (simp add: getCurrentCaps_char [OF inv] applyResets_fields msPerDay_def)
  have year: "i_yearly (fst (getCurrentCaps cache d h now)) = 0 \<and>
        yearlyReset (loadCaps (snd (snd (getCurrentCaps cache d h now))) h) = getNextYearlyReset now \<and>
        now < getNextYearlyReset now \<and>
        getNextYearlyReset now = DayFromYear (YearFromTime now + 1) * 86400000 \<and>
        DayFromYear (YearFromTime now) * 86400000 \<le> now"
    if "yearlyReset (loadCaps d h) \<le> now" for h now
    using that yearly_after [of now] getNextYearlyReset_eq [of now] year_begin_le [of now]
    by (simp add: getCurrentCaps_char [OF inv] applyResets_fields msPerDay_def)
  show ?thesis
    using bound reads refuse after day month year by blast
qed

text \<open>
  The theorem after one increment on an empty store, made on 14 November 2023: an
  increment by 3600 is refused; a read at the next UTC midnight returns 0 for the daily
  counter and moves the daily reset to 16 November; a read on 1 December returns 0 for
  the monthly counter and moves the monthly reset to 1 January 2024, and one on
  15 February 2024 moves it to 1 March; a read on 1 January 2024 returns 0 for the
  yearly counter and moves the yearly reset to 1 January 2025.
\<close>

theorem caps_bounded_and_reset_witness:
  "caps_inv (\<lambda>h. None, empty_database) \<and>
   daily (loadCaps (snd (run_caps example_caps_ops (\<lambda>h. None, empty_database))) ''HID-ABCD1234'') \<le> 3600 \<and>
   (\<exists>rsn info. fst (incrementCaps (fst (run_caps example_caps_ops (\<lambda>h. None, empty_database)))
                      (snd (run_caps example_caps_ops (\<lambda>h. None, empty_database)))
                      ''HID-ABCD1234'' 3600 1700000000001) = IncrFail rsn info) \<and>
   i_daily (fst (getCurrentCaps (fst (run_caps example_caps_ops (\<lambda>h. None, empty_database)))
                      (snd (run_caps example_caps_ops (\<lambda>h. None, empty_database)))
                      ''HID-ABCD1234'' 1700006400000)) = 0 \<and>
   dailyReset (loadCaps (snd (snd (getCurrentCaps
                      (fst (run_caps example_caps_ops (\<lambda>h. None, empty_database)))
                      (snd (run_caps example_caps_ops (\<lambda>h. None, empty_database)))
                      ''HID-ABCD1234'' 1700006400000))) ''HID-ABCD1234'') = 1700092800000 \<and>
   i_monthly (fst (getCurrentCaps (fst (run_caps example_caps_ops (\<lambda>h. None, empty_database)))
                      (snd (run_caps example_caps_ops (\<lambda>h. None, empty_database)))
                      ''HID-ABCD1234'' 1701388800000)) = 0 \<and>
   monthlyReset (loadCaps (snd (snd (getCurrentCaps
                      (fst (run_caps example_caps_ops (\<lambda>h. None, empty_database)))
                      (snd (run_caps example_caps_ops (\<lambda>h. None, empty_database)))
                      ''HID-ABCD1234'' 1701388800000))) ''HID-ABCD1234'') = 1704067200000 \<and>
   monthlyReset (loadCaps (snd (snd (getCurrentCaps
                      (fst (run_caps example_caps_ops (\<lambda>h. None, empty_database)))
                      (snd (run_caps example_caps_ops (\<lambda>h. None, empty_database)))
                      ''HID-ABCD1234'' 1708000000000))) ''HID-ABCD1234'') = 1709251200000 \<and>
   i_yearly (fst (getCurrentCaps (fst (run_caps example_caps_ops (\<lambda>h. None, empty_database)))
                      (snd (run_caps example_caps_ops (\<lambda>h. None, empty_database)))
                      ''HID-ABCD1234'' 1704067200000)) = 0 \<and>
   yearlyReset (loadCaps (snd (snd (getCurrentCaps
                      (fst (run_caps example_caps_ops (\<lambda>h. None, empty_database)))
                      (snd (run_caps example_caps_ops (\<lambda>h. None, empty_database)))
                      ''HID-ABCD1234'' 1704067200000))) ''HID-ABCD1234'') = 1735689600000"
proof -
  let ?S = "run_caps example_caps_ops (\<lambda>h. None, empty_database)"
  let ?H = "''HID-ABCD1234''"
  have inv0: "caps_inv (\<lambda>h. None, empty_database)"
    unfolding caps_inv_def fst_conv snd_conv
    by (simp add: loadCaps_def empty_database_def within_caps_def)
  have a: "3600 < i_daily (fst (getCurrentCaps (fst ?S) (snd ?S) ?H 1700000000001)) + 3600"
    by code_simp
  have b: "dailyReset (loadCaps (snd ?S) ?H) \<le> 1700006400000" by code_simp
  have c: "monthlyReset (loadCaps (snd ?S) ?H) \<le> 1701388800000" by code_simp
  have c': "monthlyReset (loadCaps (snd ?S) ?H) \<le> 1708000000000" by code_simp
  have e: "yearlyReset (loadCaps (snd ?S) ?H) \<le> 1704067200000" by code_simp
  have cal: "getNextDailyReset 1700006400000 = 1700092800000"
    "MakeDay (YearFromTime 1701388800000) (MonthFromTime 1701388800000 + 1) 1 * 86400000
       = 1704067200000"
    "MakeDay (YearFromTime 1708000000000) (MonthFromTime 1708000000000 + 1) 1 * 86400000
       = 1709251200000"
    "DayFromYear (YearFromTime 1704067200000 + 1) * 86400000 = 1735689600000"
    by code_simp+
  note T = caps_bounded_and_reset [OF inv0, of example_caps_ops]
  from T have t1: "within_caps (loadCaps (snd ?S) ?H)" by blast
  from T a have t2: "\<exists>rsn info. fst (incrementCaps (fst ?S) (snd ?S) ?H 3600 1700000000001)
                        = IncrFail rsn info" by blast
  from T b have t3: "i_daily (fst (getCurrentCaps (fst ?S) (snd ?S) ?H 1700006400000)) = 0"
    and t3': "dailyReset (loadCaps (snd (snd (getCurrentCaps (fst ?S) (snd ?S) ?H 1700006400000))) ?H)
                = getNextDailyReset 1700006400000"
    by blast+
  from T c have t4: "i_monthly (fst (getCurrentCaps (fst ?S) (snd ?S) ?H 1701388800000)) = 0"
    and t4': "monthlyReset (loadCaps (snd (snd (getCurrentCaps (fst ?S) (snd ?S) ?H 1701388800000))) ?H)
                = MakeDay (YearFromTime 1701388800000) (MonthFromTime 1701388800000 + 1) 1 * 86400000"
    by metis+
  from T c' have t4'': "monthlyReset (loadCaps (snd (snd (getCurrentCaps (fst ?S) (snd ?S) ?H 1708000000000))) ?H)
                = MakeDay (YearFromTime 1708000000000) (MonthFromTime 1708000000000 + 1) 1 * 86400000"
    by metis
  from T e have t5: "i_yearly (fst (getCurrentCaps (fst ?S) (snd ?S) ?H 1704067200000)) = 0"
    and t5': "yearlyReset (loadCaps (snd (snd (getCurrentCaps (fst ?S) (snd ?S) ?H 1704067200000))) ?H)
                = DayFromYear (YearFromTime 1704067200000 + 1) * 86400000"
    by metis+
  from inv0 t1 t2 t3 t3' t4 t4' t4'' t5 t5' show ?thesis
    by (simp add: within_caps_def cal)
qed

end
